theory Spec2Isabelle
  imports Complex_Main
begin

section \<open>JavaScript values as the ingestion script sees them\<close>

text \<open>
  The script \<^verbatim>\<open>parse_and_store.ts\<close> works on whatever \<^verbatim>\<open>JSON.parse\<close> returns, typed
  \<^verbatim>\<open>any\<close>. The model therefore keeps the untyped values and writes out the dynamic
  semantics of each operator the script applies to them.

  A number is the exact rational value of a double, or one of the non-finite doubles.
  Negative zero is identified with zero (the script only compares with \<^verbatim>\<open>===\<close>, \<^verbatim>\<open><\<close> and
  \<^verbatim>\<open>>\<close>, which do not tell them apart).
\<close>

datatype jsnum = Fin rat | PInf | NInf | NaN

datatype json =
    JNull
  | JBool bool
  | JNum jsnum
  | JStr string
  | JArr "json list"
  | JObj "(string \<times> json) list"

text \<open>A JavaScript value that may be \<^verbatim>\<open>undefined\<close>: \<open>None\<close> is \<^verbatim>\<open>undefined\<close>.\<close>

type_synonym jsval = "json option"

datatype error = TypeError | SyntaxError | SqliteError

text \<open>ToBoolean: \<^verbatim>\<open>undefined\<close>, \<^verbatim>\<open>null\<close>, \<^verbatim>\<open>false\<close>, \<^verbatim>\<open>0\<close>, \<^verbatim>\<open>NaN\<close> and \<^verbatim>\<open>""\<close> are falsy.\<close>

fun truthy :: "jsval \<Rightarrow> bool" where
  "truthy None = False"
| "truthy (Some JNull) = False"
| "truthy (Some (JBool b)) = b"
| "truthy (Some (JNum n)) = (n \<noteq> Fin 0 \<and> n \<noteq> NaN)"
| "truthy (Some (JStr s)) = (s \<noteq> [])"
| "truthy (Some (JArr xs)) = True"
| "truthy (Some (JObj ms)) = True"

text \<open>
  The decimal text of an array index, as ToString gives it for an integer below \<open>10\<^sup>2\<^sup>1\<close>.
\<close>

definition digit_char :: "nat \<Rightarrow> char" where
  "digit_char d = ''0123456789'' ! d"

fun index_key :: "nat \<Rightarrow> string" where
  "index_key n = (if n < 10 then [digit_char n] else index_key (n div 10) @ [digit_char (n mod 10)])"

declare index_key.simps [simp del]

text \<open>
  Property read \<^verbatim>\<open>v.k\<close> for the names the script uses (none of them is an array index
  or a property of a prototype). Reading a property of \<^verbatim>\<open>undefined\<close> or \<^verbatim>\<open>null\<close>
  throws a TypeError; an object gives its own member, an array and a string give their
  \<^verbatim>\<open>length\<close>, every other read is \<^verbatim>\<open>undefined\<close>.
\<close>

fun getProp :: "jsval \<Rightarrow> string \<Rightarrow> error + jsval" where
  "getProp None k = Inl TypeError"
| "getProp (Some JNull) k = Inl TypeError"
| "getProp (Some (JObj ms)) k = Inr (map_of ms k)"
| "getProp (Some (JArr xs)) k =
     Inr (if k = ''length'' then Some (JNum (Fin (of_nat (length xs)))) else None)"
| "getProp (Some (JStr s)) k =
     Inr (if k = ''length'' then Some (JNum (Fin (of_nat (length s)))) else None)"
| "getProp (Some (JBool b)) k = Inr None"
| "getProp (Some (JNum n)) k = Inr None"

text \<open>Indexed read \<^verbatim>\<open>v[i]\<close> for a non-negative integer \<open>i\<close>.\<close>

fun getIndex :: "jsval \<Rightarrow> nat \<Rightarrow> error + jsval" where
  "getIndex None i = Inl TypeError"
| "getIndex (Some JNull) i = Inl TypeError"
| "getIndex (Some (JArr xs)) i = Inr (if i < length xs then Some (xs ! i) else None)"
| "getIndex (Some (JStr s)) i = Inr (if i < length s then Some (JStr [s ! i]) else None)"
| "getIndex (Some (JObj ms)) i = Inr (map_of ms (index_key i))"
| "getIndex (Some (JBool b)) i = Inr None"
| "getIndex (Some (JNum n)) i = Inr None"

text \<open>The relational operator \<^verbatim>\<open><\<close> on numbers: false as soon as one side is NaN.\<close>

fun num_lt :: "jsnum \<Rightarrow> jsnum \<Rightarrow> bool" where
  "num_lt (Fin a) (Fin b) = (a < b)"
| "num_lt (Fin a) PInf = True"
| "num_lt NInf (Fin b) = True"
| "num_lt NInf PInf = True"
| "num_lt a b = False"

text \<open>
  \<^verbatim>\<open>processed/totalChecked*100\<close> on two counters: the division is not guarded, so a
  zero divisor gives NaN (for \<^verbatim>\<open>0/0\<close>) or Infinity.
\<close>

definition js_div :: "nat \<Rightarrow> nat \<Rightarrow> jsnum" where
  "js_div a b = (if b = 0 then (if a = 0 then NaN else PInf) else Fin (of_nat a / of_nat b))"

fun js_times :: "jsnum \<Rightarrow> nat \<Rightarrow> jsnum" where
  "js_times (Fin q) k = Fin (q * of_nat k)"
| "js_times PInf k = (if k = 0 then NaN else PInf)"
| "js_times NInf k = (if k = 0 then NaN else NInf)"
| "js_times NaN k = NaN"

section \<open>The table\<close>

text \<open>
  One row of the table \<^verbatim>\<open>systems\<close> (lines 19 to 30), without its auto-assigned identifier.
  A column holds the JavaScript value bound to its parameter of the insert statement of line
  33; \<^verbatim>\<open>undefined\<close> and \<^verbatim>\<open>null\<close> are stored as SQL NULL, and a column to which nothing was
  bound is NULL as well. No column has a constraint. The conversions of SQLite between the
  storage classes (a number in a text column, say) are not modelled: they keep NULL apart
  from every other value.
\<close>

record row =
  system_name :: jsval
  x_col :: jsval
  y_col :: jsval
  z_col :: jsval
  matched_body_name :: jsval
  matched_body :: jsval
  system_data :: jsval

definition sql_null :: "jsval \<Rightarrow> bool" where
  "sql_null v = (v = None \<or> v = Some JNull)"

section \<open>The runtime the script calls into\<close>

text \<open>
  \<^verbatim>\<open>JSON.parse\<close>, \<^verbatim>\<open>JSON.stringify\<close> and the number coercion of a string, array or
  object belong to the JavaScript runtime, not to the repository. They are parameters of
  the model: \<open>parse\<close> is \<open>None\<close> where \<^verbatim>\<open>JSON.parse\<close> throws, \<open>coerce\<close> is ToNumber on
  a value that is not already \<^verbatim>\<open>undefined\<close>, \<^verbatim>\<open>null\<close>, a boolean or a number.

  So is one part of the database driver. \<^verbatim>\<open>Statement.run\<close> of \<^verbatim>\<open>bun:sqlite\<close> reads
  its first argument, when that is an array or an object, as the bindings of the statement
  and leaves the other arguments aside. \<open>bindings\<close> is the row the insert statement of line
  33 then stores, or the exception the driver throws.
\<close>

record runtime =
  parse :: "string \<Rightarrow> json option"
  stringify :: "json \<Rightarrow> string"
  coerce :: "json \<Rightarrow> error + jsnum"
  bindings :: "json \<Rightarrow> error + row"

fun toNumber :: "runtime \<Rightarrow> jsval \<Rightarrow> error + jsnum" where
  "toNumber rt None = Inr NaN"
| "toNumber rt (Some JNull) = Inr (Fin 0)"
| "toNumber rt (Some (JBool b)) = Inr (Fin (if b then 1 else 0))"
| "toNumber rt (Some (JNum n)) = Inr n"
| "toNumber rt (Some v) = coerce rt v"

section \<open>Line handling\<close>

text \<open>
  \<^verbatim>\<open>String.prototype.trim\<close> removes white space and line terminators from both ends;
  these are the ones among the 8-bit characters of the model.
\<close>

definition is_space :: "char \<Rightarrow> bool" where
  "is_space c = (of_char c \<in> {9, 10, 11, 12, 13, 32, 160 :: nat})"

definition trim :: "string \<Rightarrow> string" where
  "trim s = rev (dropWhile is_space (rev (dropWhile is_space s)))"

text \<open>\<^verbatim>\<open>trimmed.replace(/,$/, "")\<close>: one comma at the very end is removed.\<close>

definition strip_comma :: "string \<Rightarrow> string" where
  "strip_comma s = (if s \<noteq> [] \<and> last s = CHR '','' then butlast s else s)"

section \<open>The match predicate (lines 73 to 83)\<close>

text \<open>
  The test on one body:
  \<^verbatim>\<open>body.rings && body.rings.length > 0 && body.isLandable === true &&
  body.atmosphereType && body.atmosphereType !== null\<close>, evaluated left to right.
\<close>

definition qualifies :: "runtime \<Rightarrow> jsval \<Rightarrow> error + bool" where
  "qualifies rt body =
     (case getProp body ''rings'' of Inl e \<Rightarrow> Inl e | Inr rings \<Rightarrow>
      (if \<not> truthy rings then Inr False
       else (case getProp rings ''length'' of Inl e \<Rightarrow> Inl e | Inr len \<Rightarrow>
        (case toNumber rt len of Inl e \<Rightarrow> Inl e | Inr n \<Rightarrow>
         (if \<not> num_lt (Fin 0) n then Inr False
          else (case getProp body ''isLandable'' of Inl e \<Rightarrow> Inl e | Inr landable \<Rightarrow>
           (if landable \<noteq> Some (JBool True) then Inr False
            else (case getProp body ''atmosphereType'' of Inl e \<Rightarrow> Inl e | Inr atm \<Rightarrow>
              Inr (truthy atm \<and> atm \<noteq> Some JNull)))))))))"

text \<open>
  The values an indexed read of \<open>bodies\<close> can return are finitely many; the scan below
  stops at the first index that reads \<^verbatim>\<open>undefined\<close>.
\<close>

definition digit_val :: "char \<Rightarrow> nat" where
  "digit_val c = of_char c - 48"

lemma digit_val_digit_char: "d < 10 \<Longrightarrow> digit_val (digit_char d) = d"
proof -
  assume "d < 10"
  then have "d \<in> {0, 1, 2, 3, 4, 5, 6, 7, 8, 9}" by auto
  then show ?thesis
    by (auto simp: digit_val_def digit_char_def)
qed

lemma index_key_inverse: "foldl (\<lambda>a c. 10 * a + digit_val c) 0 (index_key n) = n"
proof (induction n rule: index_key.induct)
  case (1 n)
  show ?case
  proof (cases "n < 10")
    case True
    then show ?thesis
      by (subst index_key.simps) (simp add: digit_val_digit_char)
  next
    case False
    then have "foldl (\<lambda>a c. 10 * a + digit_val c) 0 (index_key (n div 10)) = n div 10"
      using "1.IH" by simp
    with False show ?thesis
      by (subst index_key.simps) (simp add: digit_val_digit_char)
  qed
qed

lemma inj_index_key: "inj index_key"
  by (rule inj_on_inverseI [where g = "foldl (\<lambda>a c. 10 * a + digit_val c) 0"])
     (rule index_key_inverse)

lemma finite_defined_indices: "finite {j. \<exists>b. getIndex bodies j = Inr (Some b)}"
proof (cases bodies)
  case None
  then show ?thesis by simp
next
  case (Some v)
  show ?thesis
  proof (cases v)
    case (JArr xs)
    have "{j. \<exists>b. getIndex bodies j = Inr (Some b)} \<subseteq> {..<length xs}"
      using Some JArr by (auto split: if_splits)
    then show ?thesis by (rule finite_subset) simp
  next
    case (JStr s)
    have "{j. \<exists>b. getIndex bodies j = Inr (Some b)} \<subseteq> {..<length s}"
      using Some JStr by (auto split: if_splits)
    then show ?thesis by (rule finite_subset) simp
  next
    case (JObj ms)
    have "{j. \<exists>b. getIndex bodies j = Inr (Some b)} \<subseteq> index_key -` (fst ` set ms)"
      using Some JObj by (force dest!: map_of_SomeD simp: image_iff)
    moreover have "finite (index_key -` (fst ` set ms))"
      by (rule finite_vimageI [OF _ inj_index_key]) simp
    ultimately show ?thesis by (rule finite_subset)
  qed (use Some in simp_all)
qed

text \<open>
  The scan of lines 77 to 83:
  \<^verbatim>\<open>for (let i = 0; i < obj.bodies.length && !foundMatch; i++) { const body = obj.bodies[i]; ... }\<close>.
  \<open>scanBodies rt bodies i\<close> is the loop from index \<open>i\<close> on, with no match found so
  far: \<open>Inr (Some b)\<close> is the body on which \<open>foundMatch\<close> is set, \<open>Inr None\<close> a loop that
  ends without a match, \<open>Inl e\<close> an exception thrown by the condition or the body test.
  The length is read again at every iteration, as in the source. The counter is a natural
  number: the double of the source counts exactly up to \<open>2\<^sup>5\<^sup>3\<close>, further than a decoded
  value has members.
\<close>

function scanBodies :: "runtime \<Rightarrow> jsval \<Rightarrow> nat \<Rightarrow> error + json option" where
  "scanBodies rt bodies i =
     (case getProp bodies ''length'' of Inl e \<Rightarrow> Inl e | Inr len \<Rightarrow>
      (case toNumber rt len of Inl e \<Rightarrow> Inl e | Inr n \<Rightarrow>
       (if \<not> num_lt (Fin (of_nat i)) n then Inr None
        else (case getIndex bodies i of Inl e \<Rightarrow> Inl e | Inr body \<Rightarrow>
         (case body of None \<Rightarrow> Inl TypeError | Some b \<Rightarrow>
          (case qualifies rt (Some b) of Inl e \<Rightarrow> Inl e
           | Inr found \<Rightarrow> if found then Inr (Some b) else scanBodies rt bodies (Suc i)))))))"
  by pat_completeness auto
termination
proof (relation "measure (\<lambda>(rt, bodies, i). card {j. i \<le> j \<and> (\<exists>b. getIndex bodies j = Inr (Some b))})")
  show "wf (measure (\<lambda>(rt, bodies, i). card {j. i \<le> j \<and> (\<exists>b. getIndex bodies j = Inr (Some b))}))"
    by simp
next
  fix rt :: runtime and bodies :: jsval and i :: nat and body :: jsval and b :: json
  assume "getIndex bodies i = Inr body" and "body = Some b"
  then have here: "getIndex bodies i = Inr (Some b)" by simp
  let ?S = "\<lambda>k. {j. k \<le> j \<and> (\<exists>b. getIndex bodies j = Inr (Some b))}"
  have fin: "finite (?S i)"
    using finite_defined_indices [of bodies] by simp
  have "?S (Suc i) \<subseteq> ?S i" by auto
  moreover have "i \<in> ?S i" using here by simp
  moreover have "i \<notin> ?S (Suc i)" by simp
  ultimately have "?S (Suc i) \<subset> ?S i" by blast
  then have "card (?S (Suc i)) < card (?S i)"
    using fin by (rule psubset_card_mono [rotated])
  then show "((rt, bodies, Suc i), (rt, bodies, i))
      \<in> measure (\<lambda>(rt, bodies, i). card {j. i \<le> j \<and> (\<exists>b. getIndex bodies j = Inr (Some b))})"
    by simp
qed

declare scanBodies.simps [simp del]

text \<open>
  Line 73, \<^verbatim>\<open>if (!obj.bodies || obj.population !== 0 || !obj.coords) continue;\<close>, then the
  scan. The result is the matched body, if there is one.
\<close>

definition matchPredicate :: "runtime \<Rightarrow> json \<Rightarrow> error + json option" where
  "matchPredicate rt obj =
     (case getProp (Some obj) ''bodies'' of Inl e \<Rightarrow> Inl e | Inr bodies \<Rightarrow>
      (if \<not> truthy bodies then Inr None
       else (case getProp (Some obj) ''population'' of Inl e \<Rightarrow> Inl e | Inr population \<Rightarrow>
        (if population \<noteq> Some (JNum (Fin 0)) then Inr None
         else (case getProp (Some obj) ''coords'' of Inl e \<Rightarrow> Inl e | Inr coords \<Rightarrow>
          (if \<not> truthy coords then Inr None
           else scanBodies rt bodies 0))))))"

section \<open>The store\<close>

text \<open>
  The database connection: the batches committed so far, oldest first, the rows written in
  the open transaction, and whether a transaction is open. \<^verbatim>\<open>BEGIN\<close> inside a transaction
  and \<^verbatim>\<open>COMMIT\<close> outside of one are errors of SQLite; an insert outside a transaction
  commits by itself.
\<close>

record database =
  committed :: "row list list"
  pending :: "row list"
  inTxn :: bool

definition db_begin :: "database \<Rightarrow> error + database" where
  "db_begin d = (if inTxn d then Inl SqliteError else Inr (d\<lparr>inTxn := True\<rparr>))"

definition db_commit :: "database \<Rightarrow> error + database" where
  "db_commit d =
     (if inTxn d
      then Inr (d\<lparr>committed := committed d @ [pending d], pending := [], inTxn := False\<rparr>)
      else Inl SqliteError)"

definition db_insert :: "row \<Rightarrow> database \<Rightarrow> database" where
  "db_insert r d =
     (if inTxn d then d\<lparr>pending := pending d @ [r]\<rparr>
      else d\<lparr>committed := committed d @ [[r]]\<rparr>)"

definition persisted :: "database \<Rightarrow> row list" where
  "persisted d = concat (committed d)"

section \<open>The pipeline driver: \<^verbatim>\<open>processFile\<close>\<close>

text \<open>One line of the progress report: the two counters and the match rate before formatting.\<close>

record report =
  final :: bool
  rep_processed :: nat
  rep_checked :: nat
  match_rate :: jsnum

definition mk_report :: "bool \<Rightarrow> nat \<Rightarrow> nat \<Rightarrow> report" where
  "mk_report fin p c =
     \<lparr>final = fin, rep_processed = p, rep_checked = c, match_rate = js_times (js_div p c) 100\<rparr>"

record state =
  buffer :: string
  insideArray :: bool
  processed :: nat
  batchCount :: nat
  totalChecked :: nat
  db :: database
  console :: "report list"

text \<open>
  A block of statements either runs to its end or throws with the state it has reached:
  \<open>Inl (e, st)\<close> is the exception \<open>e\<close> thrown in state \<open>st\<close>.
\<close>

type_synonym outcome = "(error \<times> state) + state"

text \<open>
  The arguments of \<^verbatim>\<open>insertStmt.run\<close> (lines 86 to 94), evaluated in order:
  \<^verbatim>\<open>obj.name, obj.coords.x, obj.coords.y, obj.coords.z, body.name, JSON.stringify(body),
  JSON.stringify(obj)\<close>.
\<close>

definition mkRow :: "runtime \<Rightarrow> json \<Rightarrow> json \<Rightarrow> error + row" where
  "mkRow rt obj body =
     (case getProp (Some obj) ''name'' of Inl e \<Rightarrow> Inl e | Inr name \<Rightarrow>
      (case getProp (Some obj) ''coords'' of Inl e \<Rightarrow> Inl e | Inr coords \<Rightarrow>
       (case getProp coords ''x'' of Inl e \<Rightarrow> Inl e | Inr cx \<Rightarrow>
        (case getProp coords ''y'' of Inl e \<Rightarrow> Inl e | Inr cy \<Rightarrow>
         (case getProp coords ''z'' of Inl e \<Rightarrow> Inl e | Inr cz \<Rightarrow>
          (case getProp (Some body) ''name'' of Inl e \<Rightarrow> Inl e | Inr bname \<Rightarrow>
            Inr \<lparr>system_name = name, x_col = cx, y_col = cy, z_col = cz,
                 matched_body_name = bname, matched_body = Some (JStr (stringify rt body)),
                 system_data = Some (JStr (stringify rt obj))\<rparr>))))))"

text \<open>
  Lines 101 to 105:
  \<^verbatim>\<open>if (batchCount >= 500) { db.run("COMMIT"); db.run("BEGIN TRANSACTION"); batchCount = 0; }\<close>
\<close>

definition commitBatch :: "state \<Rightarrow> outcome" where
  "commitBatch st =
     (if batchCount st \<ge> 500
      then (case db_commit (db st) of Inl e \<Rightarrow> Inl (e, st) | Inr d1 \<Rightarrow>
        (case db_begin d1 of Inl e \<Rightarrow> Inl (e, st\<lparr>db := d1\<rparr>) | Inr d2 \<Rightarrow>
          Inr (st\<lparr>db := d2, batchCount := 0\<rparr>)))
      else Inr st)"

text \<open>Lines 108 to 110: the report on every 500th match.\<close>

definition logProgress :: "state \<Rightarrow> state" where
  "logProgress st =
     (if processed st mod 500 = 0
      then st\<lparr>console := console st @ [mk_report False (processed st) (totalChecked st)]\<rparr>
      else st)"

text \<open>
  \<^verbatim>\<open>insertStmt.run\<close> on the seven arguments of lines 87 to 93. A value can be bound when it
  is \<^verbatim>\<open>undefined\<close>, \<^verbatim>\<open>null\<close>, a boolean, a number or a string. When the first argument,
  \<^verbatim>\<open>obj.name\<close>, is an array or an object, the driver reads it as the bindings. Otherwise
  the seven arguments are bound in order, and the driver throws a TypeError on one that is
  an array or an object; bound as they are, they are the row that is stored.
\<close>

definition bindable :: "jsval \<Rightarrow> bool" where
  "bindable v = (case v of Some (JArr xs) \<Rightarrow> False | Some (JObj ms) \<Rightarrow> False | _ \<Rightarrow> True)"

definition insertStmt_run :: "runtime \<Rightarrow> row \<Rightarrow> error + row" where
  "insertStmt_run rt args =
     (case system_name args of
        Some (JArr xs) \<Rightarrow> bindings rt (JArr xs)
      | Some (JObj ms) \<Rightarrow> bindings rt (JObj ms)
      | _ \<Rightarrow>
         (if list_all bindable [x_col args, y_col args, z_col args, matched_body_name args,
                                matched_body args, system_data args]
          then Inr args else Inl TypeError))"

text \<open>
  Lines 86 to 110, the body of the \<^verbatim>\<open>if\<close> inside the scan, run for the body on which
  the scan stops: insert, count, commit a full batch, report. An exception of the insert
  leaves the counters and the store as they are.
\<close>

definition storeMatch :: "runtime \<Rightarrow> json \<Rightarrow> json \<Rightarrow> state \<Rightarrow> outcome" where
  "storeMatch rt obj body st =
     (case mkRow rt obj body of Inl e \<Rightarrow> Inl (e, st) | Inr args \<Rightarrow>
      (case insertStmt_run rt args of Inl e \<Rightarrow> Inl (e, st) | Inr r \<Rightarrow>
       (case commitBatch (st\<lparr>db := db_insert r (db st), processed := processed st + 1,
                               batchCount := batchCount st + 1\<rparr>) of
          Inl thrown \<Rightarrow> Inl thrown
        | Inr st' \<Rightarrow> Inr (logProgress st'))))"

text \<open>
  The \<^verbatim>\<open>try\<close> block, lines 68 to 112, entered with the line already appended to the
  buffer. The exception of \<^verbatim>\<open>JSON.parse\<close> leaves the state as it is; an exception thrown
  later, by the match predicate or by the insert, finds the buffer already reset and the
  record already counted.
\<close>

definition tryBlock :: "runtime \<Rightarrow> state \<Rightarrow> outcome" where
  "tryBlock rt st =
     (case parse rt (buffer st) of None \<Rightarrow> Inl (SyntaxError, st) | Some obj \<Rightarrow>
      (let st1 = st\<lparr>buffer := [], totalChecked := totalChecked st + 1\<rparr> in
       (case matchPredicate rt obj of Inl e \<Rightarrow> Inl (e, st1)
        | Inr None \<Rightarrow> Inr st1
        | Inr (Some body) \<Rightarrow> storeMatch rt obj body st1)))"

text \<open>The \<^verbatim>\<open>catch\<close> block, line 115: \<^verbatim>\<open>if (buffer) buffer += " ";\<close>\<close>

definition catchBlock :: "state \<Rightarrow> state" where
  "catchBlock st = (if buffer st \<noteq> [] then st\<lparr>buffer := buffer st @ '' ''\<rparr> else st)"

text \<open>One turn of the \<^verbatim>\<open>for await\<close> loop, lines 59 to 116.\<close>

datatype flow = Continue state | Break state

definition onLine :: "runtime \<Rightarrow> state \<Rightarrow> string \<Rightarrow> flow" where
  "onLine rt st line =
     (let trimmed = trim line in
      if trimmed = ''['' then Continue (st\<lparr>insideArray := True\<rparr>)
      else if trimmed = '']'' then Break st
      else if \<not> insideArray st then Continue st
      else (case tryBlock rt (st\<lparr>buffer := buffer st @ strip_comma trimmed\<rparr>) of
              Inl (e, st') \<Rightarrow> Continue (catchBlock st')
            | Inr st' \<Rightarrow> Continue st'))"

fun forLines :: "runtime \<Rightarrow> state \<Rightarrow> string list \<Rightarrow> state" where
  "forLines rt st [] = st"
| "forLines rt st (line # rest) =
     (case onLine rt st line of Break st' \<Rightarrow> st' | Continue st' \<Rightarrow> forLines rt st' rest)"

text \<open>The state at line 56, before the first \<^verbatim>\<open>BEGIN TRANSACTION\<close>, on an empty table.\<close>

definition initial :: state where
  "initial = \<lparr>buffer = [], insideArray = False, processed = 0, batchCount = 0, totalChecked = 0,
     db = \<lparr>committed = [], pending = [], inTxn = False\<rparr>, console = []\<rparr>"

text \<open>
  \<^verbatim>\<open>processFile\<close>: open the transaction, run the loop over the lines of the file, commit,
  print the final report. The file is given as the list of its lines, as \<^verbatim>\<open>readline\<close>
  yields them. The two statements outside the \<^verbatim>\<open>try\<close> block end the run when they throw.
  \<^verbatim>\<open>ANALYZE\<close> and the closing of the connection, which follow, change no row.
\<close>

definition processFile :: "runtime \<Rightarrow> string list \<Rightarrow> outcome" where
  "processFile rt lines =
     (case db_begin (db initial) of Inl e \<Rightarrow> Inl (e, initial) | Inr d0 \<Rightarrow>
      (let st = forLines rt (initial\<lparr>db := d0\<rparr>) lines in
       (case db_commit (db st) of Inl e \<Rightarrow> Inl (e, st) | Inr d1 \<Rightarrow>
         Inr (st\<lparr>db := d1,
                 console := console st @ [mk_report True (processed st) (totalChecked st)]\<rparr>))))"

section \<open>A reference runtime\<close>

text \<open>
  To run the model on concrete files, the runtime operations are written out for
  texts of 8-bit characters: the JSON grammar of ECMA-404 as \<^verbatim>\<open>JSON.parse\<close> reads it,
  the serialisation of \<^verbatim>\<open>JSON.stringify\<close> with no indentation, and ToNumber. A decimal
  literal denotes its exact value, except that it becomes infinite or zero where the
  nearest double is; the rounding of the mantissa to 53 bits is not modelled, and an escape
  \<^verbatim>\<open>\u....\<close> beyond the 8-bit characters is not covered. The general theorems below do not
  depend on this runtime: they hold for every \<open>parse\<close>, \<open>stringify\<close>, \<open>coerce\<close> and
  \<open>bindings\<close>.
\<close>

subsection \<open>Numbers\<close>

definition is_digit :: "char \<Rightarrow> bool" where
  "is_digit c = (48 \<le> (of_char c :: nat) \<and> (of_char c :: nat) \<le> 57)"

definition digits_val :: "string \<Rightarrow> nat" where
  "digits_val ds = foldl (\<lambda>a c. 10 * a + digit_val c) 0 ds"

text \<open>
  The nearest double of a value at or beyond \<open>2^1024 - 2^970\<close> is infinite, and of a
  value within \<open>2^-1075\<close> of zero it is zero.
\<close>

definition to_double :: "rat \<Rightarrow> jsnum" where
  "to_double q =
     (if q \<ge> 2 ^ 1024 - 2 ^ 970 then PInf
      else if q \<le> - (2 ^ 1024 - 2 ^ 970) then NInf
      else if \<bar>q\<bar> \<le> 1 / 2 ^ 1075 then Fin 0
      else Fin q)"

definition scale10 :: "rat \<Rightarrow> int \<Rightarrow> rat" where
  "scale10 m e = (if e \<ge> 0 then m * 10 ^ nat e else m / 10 ^ nat (- e))"

text \<open>
  The pieces of an unsigned decimal literal: integer digits, whether a point follows and
  the digits after it, whether an exponent follows, its sign and digits, and what is left.
\<close>

record decimal =
  int_part :: string
  has_point :: bool
  frac_part :: string
  has_exp :: bool
  exp_neg :: bool
  exp_part :: string
  leftover :: string

definition scan_decimal :: "string \<Rightarrow> decimal" where
  "scan_decimal s =
     (let ip = takeWhile is_digit s; r1 = dropWhile is_digit s;
          pt = (r1 \<noteq> [] \<and> hd r1 = CHR ''.'');
          fp = (if pt then takeWhile is_digit (tl r1) else []);
          r2 = (if pt then dropWhile is_digit (tl r1) else r1);
          ex = (r2 \<noteq> [] \<and> (hd r2 = CHR ''e'' \<or> hd r2 = CHR ''E''));
          r3 = (if ex then tl r2 else r2);
          sg = (ex \<and> r3 \<noteq> [] \<and> (hd r3 = CHR ''+'' \<or> hd r3 = CHR ''-''));
          r4 = (if sg then tl r3 else r3);
          ed = (if ex then takeWhile is_digit r4 else []);
          r5 = (if ex then dropWhile is_digit r4 else r2)
      in \<lparr>int_part = ip, has_point = pt, frac_part = fp, has_exp = ex,
           exp_neg = (sg \<and> hd r3 = CHR ''-''), exp_part = ed, leftover = r5\<rparr>)"

definition decimal_value :: "decimal \<Rightarrow> rat" where
  "decimal_value d =
     scale10 (of_nat (digits_val (int_part d @ frac_part d)))
       ((if exp_neg d then - int (digits_val (exp_part d)) else int (digits_val (exp_part d)))
        - int (length (frac_part d)))"

text \<open>
  A JSON number: an optional minus, an integer part with no leading zero, then an optional
  fraction and an optional exponent, each with at least one digit.
\<close>

definition json_number :: "string \<Rightarrow> jsnum option" where
  "json_number s =
     (let neg = (s \<noteq> [] \<and> hd s = CHR ''-'');
          d = scan_decimal (if neg then tl s else s)
      in if int_part d \<noteq> [] \<and> (length (int_part d) = 1 \<or> hd (int_part d) \<noteq> CHR ''0'')
            \<and> (has_point d \<longrightarrow> frac_part d \<noteq> [])
            \<and> (has_exp d \<longrightarrow> exp_part d \<noteq> [])
            \<and> leftover d = []
         then Some (to_double (if neg then - decimal_value d else decimal_value d))
         else None)"

subsection \<open>\<^verbatim>\<open>JSON.parse\<close>\<close>

datatype token = TLBrace | TRBrace | TLBrack | TRBrack | TColon | TComma | TScalar json

definition is_json_ws :: "char \<Rightarrow> bool" where
  "is_json_ws c = (of_char c \<in> {9, 10, 13, 32 :: nat})"

definition is_num_char :: "char \<Rightarrow> bool" where
  "is_num_char c = (is_digit c \<or> c \<in> {CHR ''+'', CHR ''-'', CHR ''.'', CHR ''e'', CHR ''E''})"

definition hex_val :: "char \<Rightarrow> nat option" where
  "hex_val c =
     (let n = (of_char c :: nat) in
      if 48 \<le> n \<and> n \<le> 57 then Some (n - 48)
      else if 65 \<le> n \<and> n \<le> 70 then Some (n - 55)
      else if 97 \<le> n \<and> n \<le> 102 then Some (n - 87)
      else None)"

definition hex4 :: "char \<Rightarrow> char \<Rightarrow> char \<Rightarrow> char \<Rightarrow> nat option" where
  "hex4 a b c d =
     (case (hex_val a, hex_val b, hex_val c, hex_val d) of
        (Some p, Some q, Some r, Some s) \<Rightarrow> Some (((p * 16 + q) * 16 + r) * 16 + s)
      | _ \<Rightarrow> None)"

definition simple_escape :: "char \<Rightarrow> char option" where
  "simple_escape e =
     (if e = CHR 0x22 \<or> e = CHR 0x5C \<or> e = CHR ''/'' then Some e
      else if e = CHR ''b'' then Some (CHR 0x08)
      else if e = CHR ''f'' then Some (CHR 0x0C)
      else if e = CHR ''n'' then Some (CHR 0x0A)
      else if e = CHR ''r'' then Some (CHR 0x0D)
      else if e = CHR ''t'' then Some (CHR 0x09)
      else None)"

text \<open>
  The text of a string after its opening quote: the decoded characters (collected in
  reverse in \<open>acc\<close>) and the text after the closing quote.
\<close>

fun scan_string :: "string \<Rightarrow> string \<Rightarrow> (string \<times> string) option" where
  "scan_string acc [] = None"
| "scan_string acc (c # cs) =
     (if c = CHR 0x22 then Some (rev acc, cs)
      else if c = CHR 0x5C then
        (case cs of
           [] \<Rightarrow> None
         | e # cs' \<Rightarrow>
            (if e = CHR ''u'' then
               (case cs' of
                  a # b # c' # d # rest \<Rightarrow>
                    (case hex4 a b c' d of
                       None \<Rightarrow> None
                     | Some n \<Rightarrow> if n < 256 then scan_string (char_of n # acc) rest else None)
                | _ \<Rightarrow> None)
             else (case simple_escape e of
                     None \<Rightarrow> None
                   | Some ch \<Rightarrow> scan_string (ch # acc) cs')))
      else if (of_char c :: nat) < 32 then None
      else scan_string (c # acc) cs)"


lemma scan_string_shorter: "scan_string acc s = Some (r, rest) \<Longrightarrow> length rest < length s"
proof (induction acc s rule: scan_string.induct)
  case (1 acc)
  then show ?case by simp
next
  case (2 acc c cs)
  show ?case
  proof (cases "c = CHR 0x22")
    case True
    with "2.prems" show ?thesis by simp
  next
    case nq: False
    show ?thesis
    proof (cases "c = CHR 0x5C")
      case bs: True
      show ?thesis
      proof (cases cs)
        case Nil
        with "2.prems" nq bs show ?thesis by simp
      next
        case (Cons e cs')
        show ?thesis
        proof (cases "e = CHR ''u''")
          case u: True
          from "2.prems" nq bs Cons u obtain a b c' d rest' n where
            cs': "cs' = a # b # c' # d # rest'" and h: "hex4 a b c' d = Some n" and n: "n < 256"
            and rec: "scan_string (char_of n # acc) rest' = Some (r, rest)"
            by (auto split: list.splits option.splits if_splits)
          have "length rest < length rest'"
            using "2.IH"(1) [of e cs' a "b # c' # d # rest'" b "c' # d # rest'" c' "d # rest'" d rest' n]
              nq bs Cons u cs' h n rec by simp
          with Cons cs' show ?thesis by simp
        next
          case nu: False
          from "2.prems" nq bs Cons nu obtain ch where
            se: "simple_escape e = Some ch" and rec: "scan_string (ch # acc) cs' = Some (r, rest)"
            by (auto split: option.splits)
          from "2.IH"(2) [OF nq bs Cons nu se rec] have "length rest < length cs'" .
          with Cons show ?thesis by simp
        qed
      qed
    next
      case nbs: False
      with "2.prems" nq have ctl: "\<not> (of_char c :: nat) < 32"
        and rec: "scan_string (c # acc) cs = Some (r, rest)"
        by (auto split: if_splits)
      from "2.IH"(3) [OF nq nbs ctl rec] show ?thesis by simp
    qed
  qed
qed

function tokenize :: "string \<Rightarrow> token list option" where
  "tokenize [] = Some []"
| "tokenize (c # cs) =
     (if is_json_ws c then tokenize cs
      else if c = CHR ''{'' then map_option ((#) TLBrace) (tokenize cs)
      else if c = CHR ''}'' then map_option ((#) TRBrace) (tokenize cs)
      else if c = CHR ''['' then map_option ((#) TLBrack) (tokenize cs)
      else if c = CHR '']'' then map_option ((#) TRBrack) (tokenize cs)
      else if c = CHR '':'' then map_option ((#) TColon) (tokenize cs)
      else if c = CHR '','' then map_option ((#) TComma) (tokenize cs)
      else if c = CHR 0x22 then
        (case scan_string [] cs of
           None \<Rightarrow> None
         | Some (s, rest) \<Rightarrow> map_option ((#) (TScalar (JStr s))) (tokenize rest))
      else if is_digit c \<or> c = CHR ''-'' then
        (case json_number (c # takeWhile is_num_char cs) of
           None \<Rightarrow> None
         | Some n \<Rightarrow> map_option ((#) (TScalar (JNum n))) (tokenize (dropWhile is_num_char cs)))
      else if take 4 (c # cs) = ''true'' then
        map_option ((#) (TScalar (JBool True))) (tokenize (drop 3 cs))
      else if take 5 (c # cs) = ''false'' then
        map_option ((#) (TScalar (JBool False))) (tokenize (drop 4 cs))
      else if take 4 (c # cs) = ''null'' then
        map_option ((#) (TScalar JNull)) (tokenize (drop 3 cs))
      else None)"
  by pat_completeness auto
termination
  apply (relation "measure length")
  apply simp_all
  subgoal for c cs x2 x y using scan_string_shorter [of "[]" cs x y] by simp
  subgoal for c cs using length_dropWhile_le [of is_num_char cs] by simp
  done

text \<open>
  The parser is a push-down automaton over the tokens. A frame is a container that is
  still open: an array with its elements so far, or an object with its members so far and
  the key whose value is being read (both lists in reverse).
\<close>

datatype frame = FArr "json list" | FObj "(string \<times> json) list" string

datatype pstate =
    Value "frame list"
  | ArrStart "frame list"
  | ArrNext "json list" "frame list"
  | ObjStart "frame list"
  | ObjKey "(string \<times> json) list" "frame list"
  | ObjColon "(string \<times> json) list" string "frame list"
  | ObjNext "(string \<times> json) list" "frame list"
  | Done json

text \<open>
  An object as \<^verbatim>\<open>JSON.parse\<close> builds it from the members in source order: a repeated
  key keeps its first place and takes the last value, and keys that are array indices
  come first, in ascending order.
\<close>

fun put_member :: "string \<Rightarrow> json \<Rightarrow> (string \<times> json) list \<Rightarrow> (string \<times> json) list" where
  "put_member k v [] = [(k, v)]"
| "put_member k v (m # ms) = (if fst m = k then (k, v) # ms else m # put_member k v ms)"

definition is_array_index :: "string \<Rightarrow> bool" where
  "is_array_index k =
     (k \<noteq> [] \<and> list_all is_digit k \<and> (length k = 1 \<or> hd k \<noteq> CHR ''0'')
      \<and> digits_val k < 4294967295)"

definition mk_object :: "(string \<times> json) list \<Rightarrow> json" where
  "mk_object ms =
     (let own = foldl (\<lambda>acc m. put_member (fst m) (snd m) acc) [] ms
      in JObj (sort_key (\<lambda>m. digits_val (fst m)) (filter (\<lambda>m. is_array_index (fst m)) own)
               @ filter (\<lambda>m. \<not> is_array_index (fst m)) own))"

fun reduce :: "json \<Rightarrow> frame list \<Rightarrow> pstate" where
  "reduce v [] = Done v"
| "reduce v (FArr xs # st) = ArrNext (v # xs) st"
| "reduce v (FObj ms k # st) = ObjNext ((k, v) # ms) st"

fun begin_value :: "frame list \<Rightarrow> token \<Rightarrow> pstate option" where
  "begin_value st TLBrack = Some (ArrStart st)"
| "begin_value st TLBrace = Some (ObjStart st)"
| "begin_value st (TScalar v) = Some (reduce v st)"
| "begin_value st t = None"

fun pstep :: "pstate \<Rightarrow> token \<Rightarrow> pstate option" where
  "pstep (Value st) t = begin_value st t"
| "pstep (ArrStart st) t = (if t = TRBrack then Some (reduce (JArr []) st) else begin_value (FArr [] # st) t)"
| "pstep (ArrNext xs st) t =
     (if t = TComma then Some (Value (FArr xs # st))
      else if t = TRBrack then Some (reduce (JArr (rev xs)) st)
      else None)"
| "pstep (ObjStart st) t =
     (case t of TRBrace \<Rightarrow> Some (reduce (JObj []) st)
      | TScalar (JStr k) \<Rightarrow> Some (ObjColon [] k st)
      | _ \<Rightarrow> None)"
| "pstep (ObjKey ms st) t =
     (case t of TScalar (JStr k) \<Rightarrow> Some (ObjColon ms k st) | _ \<Rightarrow> None)"
| "pstep (ObjColon ms k st) t = (if t = TColon then Some (Value (FObj ms k # st)) else None)"
| "pstep (ObjNext ms st) t =
     (if t = TComma then Some (ObjKey ms st)
      else if t = TRBrace then Some (reduce (mk_object (rev ms)) st)
      else None)"
| "pstep (Done v) t = None"

fun prun :: "pstate \<Rightarrow> token list \<Rightarrow> json option" where
  "prun (Done v) [] = Some v"
| "prun s [] = None"
| "prun s (t # ts) = (case pstep s t of None \<Rightarrow> None | Some s' \<Rightarrow> prun s' ts)"

definition json_parse :: "string \<Rightarrow> json option" where
  "json_parse s = (case tokenize s of None \<Rightarrow> None | Some ts \<Rightarrow> prun (Value []) ts)"

subsection \<open>\<^verbatim>\<open>JSON.stringify\<close>\<close>

text \<open>
  The decimal digits of a positive number and the position of its decimal point: the value
  is \<open>0.d\<^sub>1d\<^sub>2\<dots> \<times> 10\<^sup>n\<close>, the digits without zeros at either end. A finite double
  has such digits; \<open>decimal_places\<close> counts how often the denominator must be multiplied
  by ten to become one.
\<close>

function decimal_places :: "nat \<Rightarrow> nat option" where
  "decimal_places b =
     (if b \<le> 1 then Some 0
      else if gcd b 10 = 1 then None
      else map_option Suc (decimal_places (b div gcd b 10)))"
  by pat_completeness auto
termination
proof (relation "measure id")
  show "wf (measure (id :: nat \<Rightarrow> nat))" by simp
next
  fix b :: nat
  assume "\<not> b \<le> 1" and "gcd b 10 \<noteq> 1"
  then have "1 < gcd b 10" and "0 < b"
    by (auto simp: Suc_lessI)
  then have "b div gcd b 10 < b"
    by (intro div_less_dividend)
  then show "(b div gcd b 10, b) \<in> measure id" by simp
qed

declare decimal_places.simps [simp del]

definition strip_zeros :: "string \<Rightarrow> string" where
  "strip_zeros ds = rev (dropWhile (\<lambda>c. c = CHR ''0'') (rev ds))"

text \<open>
  Number::toString for a positive value with digits \<open>ds\<close> and point position \<open>n\<close>:
  plain digits up to \<open>10\<^sup>2\<^sup>1\<close>, a leading \<^verbatim>\<open>0.\<close> down to \<open>10\<^sup>-\<^sup>6\<close>, exponent notation beyond.
\<close>

definition place_point :: "string \<Rightarrow> int \<Rightarrow> string" where
  "place_point ds n =
     (let k = int (length ds) in
      if k \<le> n \<and> n \<le> 21 then ds @ replicate (nat (n - k)) (CHR ''0'')
      else if 0 < n \<and> n \<le> 21 then take (nat n) ds @ ''.'' @ drop (nat n) ds
      else if - 6 < n \<and> n \<le> 0 then ''0.'' @ replicate (nat (- n)) (CHR ''0'') @ ds
      else (if k = 1 then ds else take 1 ds @ ''.'' @ drop 1 ds)
           @ ''e'' @ (if n - 1 < 0 then ''-'' else ''+'') @ index_key (nat \<bar>n - 1\<bar>))"

definition positive_text :: "rat \<Rightarrow> string" where
  "positive_text q =
     (let (a, b) = quotient_of q in
      case decimal_places (nat b) of
        None \<Rightarrow> index_key (nat a) @ ''/'' @ index_key (nat b)
      | Some k \<Rightarrow>
          (let ds = index_key (nat a * 10 ^ k div nat b)
           in place_point (strip_zeros ds) (int (length ds) - int k)))"

fun number_text :: "jsnum \<Rightarrow> string" where
  "number_text (Fin q) =
     (if q = 0 then ''0'' else if q < 0 then ''-'' @ positive_text (- q) else positive_text q)"
| "number_text PInf = ''Infinity''"
| "number_text NInf = ''-Infinity''"
| "number_text NaN = ''NaN''"

text \<open>QuoteJSONString: the escapes of \<^verbatim>\<open>JSON.stringify\<close>.\<close>

definition hex_digit :: "nat \<Rightarrow> char" where
  "hex_digit d = ''0123456789abcdef'' ! d"

definition quote_char :: "char \<Rightarrow> string" where
  "quote_char c =
     (if c = CHR 0x22 then [CHR 0x5C, CHR 0x22]
      else if c = CHR 0x5C then [CHR 0x5C, CHR 0x5C]
      else if c = CHR 0x08 then [CHR 0x5C, CHR ''b'']
      else if c = CHR 0x0C then [CHR 0x5C, CHR ''f'']
      else if c = CHR 0x0A then [CHR 0x5C, CHR ''n'']
      else if c = CHR 0x0D then [CHR 0x5C, CHR ''r'']
      else if c = CHR 0x09 then [CHR 0x5C, CHR ''t'']
      else if (of_char c :: nat) < 32
        then [CHR 0x5C, CHR ''u'', CHR ''0'', CHR ''0'',
              hex_digit (of_char c div 16), hex_digit (of_char c mod 16)]
      else [c])"

definition quote :: "string \<Rightarrow> string" where
  "quote s = [CHR 0x22] @ concat (map quote_char s) @ [CHR 0x22]"

fun join :: "string \<Rightarrow> string list \<Rightarrow> string" where
  "join sep [] = []"
| "join sep [x] = x"
| "join sep (x # y # zs) = x @ sep @ join sep (y # zs)"

text \<open>A number that is not finite is written \<^verbatim>\<open>null\<close>.\<close>

fun json_stringify :: "json \<Rightarrow> string" where
  "json_stringify JNull = ''null''"
| "json_stringify (JBool b) = (if b then ''true'' else ''false'')"
| "json_stringify (JNum n) = (case n of Fin q \<Rightarrow> number_text n | _ \<Rightarrow> ''null'')"
| "json_stringify (JStr s) = quote s"
| "json_stringify (JArr xs) = ''['' @ join '','' (map json_stringify xs) @ '']''"
| "json_stringify (JObj ms) =
     ''{'' @ join '','' (map (\<lambda>m. quote (fst m) @ '':'' @ json_stringify (snd m)) ms) @ ''}''"

subsection \<open>ToNumber of a string, an array or an object\<close>

text \<open>
  ToString as the conversion to a primitive applies it: an array joins its elements with
  commas, \<^verbatim>\<open>null\<close> elements as empty texts; an object is \<^verbatim>\<open>[object Object]\<close> unless a
  member named \<^verbatim>\<open>toString\<close> hides the method, and then no conversion is left and a
  TypeError is thrown.
\<close>

fun sequence :: "(error + 'a) list \<Rightarrow> error + 'a list" where
  "sequence [] = Inr []"
| "sequence (Inl e # rs) = Inl e"
| "sequence (Inr x # rs) = (case sequence rs of Inl e \<Rightarrow> Inl e | Inr xs \<Rightarrow> Inr (x # xs))"

fun to_string :: "json \<Rightarrow> error + string" where
  "to_string JNull = Inr ''null''"
| "to_string (JBool b) = Inr (if b then ''true'' else ''false'')"
| "to_string (JNum n) = Inr (number_text n)"
| "to_string (JStr s) = Inr s"
| "to_string (JArr xs) =
     (case sequence (map (\<lambda>x. if x = JNull then Inr [] else to_string x) xs) of
        Inl e \<Rightarrow> Inl e | Inr ts \<Rightarrow> Inr (join '','' ts))"
| "to_string (JObj ms) =
     (if ''toString'' \<in> fst ` set ms then Inl TypeError else Inr ''[object Object]'')"

text \<open>
  StringToNumber: the trimmed text is empty (zero), a decimal literal with an optional
  sign, \<^verbatim>\<open>Infinity\<close> with an optional sign, or an unsigned literal in base 16, 8 or 2;
  every other text is NaN.
\<close>

definition radix_val :: "nat \<Rightarrow> string \<Rightarrow> nat option" where
  "radix_val r ds =
     (if ds \<noteq> [] \<and> list_all (\<lambda>c. case hex_val c of None \<Rightarrow> False | Some d \<Rightarrow> d < r) ds
      then Some (foldl (\<lambda>a c. r * a + the (hex_val c)) 0 ds)
      else None)"

definition radix_literal :: "string \<Rightarrow> nat option" where
  "radix_literal t =
     (if take 2 t = ''0x'' \<or> take 2 t = ''0X'' then radix_val 16 (drop 2 t)
      else if take 2 t = ''0o'' \<or> take 2 t = ''0O'' then radix_val 8 (drop 2 t)
      else if take 2 t = ''0b'' \<or> take 2 t = ''0B'' then radix_val 2 (drop 2 t)
      else None)"

definition string_to_number :: "string \<Rightarrow> jsnum" where
  "string_to_number str =
     (let t = trim str in
      if t = [] then Fin 0
      else case radix_literal t of
        Some n \<Rightarrow> to_double (of_nat n)
      | None \<Rightarrow>
         (let neg = (hd t = CHR ''-'');
              u = (if hd t = CHR ''-'' \<or> hd t = CHR ''+'' then tl t else t);
              d = scan_decimal u
          in if u = ''Infinity'' then (if neg then NInf else PInf)
             else if (int_part d \<noteq> [] \<or> (has_point d \<and> frac_part d \<noteq> []))
                     \<and> (has_exp d \<longrightarrow> exp_part d \<noteq> []) \<and> leftover d = []
               then to_double (if neg then - decimal_value d else decimal_value d)
             else NaN))"

definition json_coerce :: "json \<Rightarrow> error + jsnum" where
  "json_coerce v = (case to_string v of Inl e \<Rightarrow> Inl e | Inr s \<Rightarrow> Inr (string_to_number s))"

subsection \<open>An array or an object as the bindings of the insert statement\<close>

text \<open>
  The insert statement has seven positional parameters and no named one. Read as the
  bindings, an object binds nothing, so that the row is stored with NULL in every column.
  An array is the list of the seven values: the empty array binds nothing, an array of
  another length than seven is refused, and so is an element that cannot be bound.
\<close>

definition null_row :: row where
  "null_row = \<lparr>system_name = None, x_col = None, y_col = None, z_col = None,
     matched_body_name = None, matched_body = None, system_data = None\<rparr>"

fun sqlite_bindings :: "json \<Rightarrow> error + row" where
  "sqlite_bindings (JArr xs) =
     (if xs = [] then Inr null_row
      else if length xs \<noteq> 7 then Inl SqliteError
      else if \<not> list_all (\<lambda>x. bindable (Some x)) xs then Inl TypeError
      else Inr \<lparr>system_name = Some (xs ! 0), x_col = Some (xs ! 1), y_col = Some (xs ! 2),
                z_col = Some (xs ! 3), matched_body_name = Some (xs ! 4),
                matched_body = Some (xs ! 5), system_data = Some (xs ! 6)\<rparr>)"
| "sqlite_bindings v = Inr null_row"

text \<open>The reference runtime.\<close>

definition js :: runtime where
  "js = \<lparr>parse = json_parse, stringify = json_stringify, coerce = json_coerce,
          bindings = sqlite_bindings\<rparr>"

section \<open>The reassembler, the rows and the batches of a run\<close>

text \<open>
  The part of the loop that decides which values are decoded (lines 59 to 69 and 115)
  depends on the buffer and on \<open>insideArray\<close> only. \<open>reassemble rt buf inside lines\<close> is the
  list of the values \<^verbatim>\<open>JSON.parse\<close> returns, in order, when the loop is entered with
  buffer \<open>buf\<close> and flag \<open>inside\<close>.
\<close>

definition keep_fragment :: "string \<Rightarrow> string" where
  "keep_fragment buf = (if buf \<noteq> [] then buf @ '' '' else buf)"

fun reassemble :: "runtime \<Rightarrow> string \<Rightarrow> bool \<Rightarrow> string list \<Rightarrow> json list" where
  "reassemble rt buf inside [] = []"
| "reassemble rt buf inside (line # rest) =
     (if trim line = ''['' then reassemble rt buf True rest
      else if trim line = '']'' then []
      else if \<not> inside then reassemble rt buf inside rest
      else (case parse rt (buf @ strip_comma (trim line)) of
              Some obj \<Rightarrow> obj # reassemble rt [] inside rest
            | None \<Rightarrow> reassemble rt (keep_fragment (buf @ strip_comma (trim line))) inside rest))"

declare reassemble.simps [simp del]

text \<open>The state after the \<^verbatim>\<open>try\<close> block and, when it has thrown, the \<^verbatim>\<open>catch\<close> block.\<close>

definition after_try :: "outcome \<Rightarrow> state" where
  "after_try r = (case r of Inl (e, st') \<Rightarrow> catchBlock st' | Inr st' \<Rightarrow> st')"

text \<open>The state an outcome ends in, thrown or not.\<close>

definition state_of :: "outcome \<Rightarrow> state" where
  "state_of r = (case r of Inl (e, st) \<Rightarrow> st | Inr st \<Rightarrow> st)"

text \<open>
  The arguments with which a decoded value reaches \<^verbatim>\<open>insertStmt.run\<close>, if it reaches it,
  and the row it leads to, if it leads to one.
\<close>

definition argsOf :: "runtime \<Rightarrow> json \<Rightarrow> row option" where
  "argsOf rt obj =
     (case matchPredicate rt obj of
        Inr (Some body) \<Rightarrow> (case mkRow rt obj body of Inr args \<Rightarrow> Some args | Inl e \<Rightarrow> None)
      | _ \<Rightarrow> None)"

definition rowOf :: "runtime \<Rightarrow> json \<Rightarrow> row option" where
  "rowOf rt obj =
     (case argsOf rt obj of None \<Rightarrow> None
      | Some args \<Rightarrow> (case insertStmt_run rt args of Inl e \<Rightarrow> None | Inr r \<Rightarrow> Some r))"

text \<open>
  A decoded value is storable when the values it hands to the insert statement, if it is
  matched, can all be bound: its name, the \<^verbatim>\<open>x\<close>, \<^verbatim>\<open>y\<close> and \<^verbatim>\<open>z\<close> of its
  \<^verbatim>\<open>coords\<close> and the name of the matched body are no arrays and no objects.
\<close>

definition storable :: "runtime \<Rightarrow> json \<Rightarrow> bool" where
  "storable rt obj =
     (case argsOf rt obj of None \<Rightarrow> True
      | Some args \<Rightarrow> list_all bindable [system_name args, x_col args, y_col args, z_col args,
                                        matched_body_name args])"

definition matches :: "runtime \<Rightarrow> json \<Rightarrow> bool" where
  "matches rt obj = (case matchPredicate rt obj of Inr (Some body) \<Rightarrow> True | _ \<Rightarrow> False)"

text \<open>The rows in the table when the run has ended, normally or not.\<close>

definition rows_of :: "outcome \<Rightarrow> row list" where
  "rows_of r = (case r of Inl (e, st) \<Rightarrow> persisted (db st) | Inr st \<Rightarrow> persisted (db st))"

text \<open>Every row written on the connection, committed or not.\<close>

definition all_rows :: "database \<Rightarrow> row list" where
  "all_rows d = concat (committed d) @ pending d"

text \<open>
  What holds of the state at the head of the loop: a transaction is open, \<open>batchCount\<close>
  counts its rows, they are fewer than 500, and every batch committed so far has 500 rows.
\<close>

definition batching :: "state \<Rightarrow> bool" where
  "batching st =
     (inTxn (db st) \<and> batchCount st = length (pending (db st)) \<and> batchCount st < 500
      \<and> list_all (\<lambda>b. length b = 500) (committed (db st)))"

text \<open>The state in which the loop is entered: line 56 has opened the first transaction.\<close>

definition started :: state where
  "started = initial\<lparr>db := (db initial)\<lparr>inTxn := True\<rparr>\<rparr>"

text \<open>Lines 120 and 121 on a state with an open transaction: the final commit and report.\<close>

definition finish :: "state \<Rightarrow> state" where
  "finish st =
     st\<lparr>db := (db st)\<lparr>committed := committed (db st) @ [pending (db st)], pending := [],
                        inTxn := False\<rparr>,
        console := console st @ [mk_report True (processed st) (totalChecked st)]\<rparr>"

section \<open>The data model of the specification\<close>

text \<open>
  The specification speaks of System Records and Body Records: decoded JSON objects, the
  body list a list of Body Records, the rings of a body a list, the coordinates an object.
  A member that is absent or \<^verbatim>\<open>null\<close> is a member the record lacks.
\<close>

definition get_member :: "json \<Rightarrow> string \<Rightarrow> jsval" where
  "get_member v k = (case v of JObj ms \<Rightarrow> map_of ms k | _ \<Rightarrow> None)"

definition is_body_record :: "json \<Rightarrow> bool" where
  "is_body_record b =
     (case b of
        JObj ms \<Rightarrow>
          (case map_of ms ''rings'' of
             None \<Rightarrow> True | Some JNull \<Rightarrow> True | Some (JArr rs) \<Rightarrow> True | Some _ \<Rightarrow> False)
      | _ \<Rightarrow> False)"

definition is_system_record :: "json \<Rightarrow> bool" where
  "is_system_record obj =
     (case obj of
        JObj ms \<Rightarrow>
          (case map_of ms ''bodies'' of
             None \<Rightarrow> True | Some JNull \<Rightarrow> True
           | Some (JArr bs) \<Rightarrow> list_all is_body_record bs | Some _ \<Rightarrow> False)
          \<and> (case map_of ms ''coords'' of
               None \<Rightarrow> True | Some JNull \<Rightarrow> True | Some (JObj cs) \<Rightarrow> True | Some _ \<Rightarrow> False)
      | _ \<Rightarrow> False)"

definition bodies_of :: "json \<Rightarrow> json list" where
  "bodies_of obj = (case get_member obj ''bodies'' of Some (JArr bs) \<Rightarrow> bs | _ \<Rightarrow> [])"

text \<open>
  The first-level checks: the record has a body list, its population is exactly zero, it
  has coordinates.
\<close>

definition first_level :: "json \<Rightarrow> bool" where
  "first_level obj =
     ((case get_member obj ''bodies'' of Some (JArr bs) \<Rightarrow> True | _ \<Rightarrow> False)
      \<and> get_member obj ''population'' = Some (JNum (Fin 0))
      \<and> (case get_member obj ''coords'' of Some (JObj cs) \<Rightarrow> True | _ \<Rightarrow> False))"

definition has_ring :: "json \<Rightarrow> bool" where
  "has_ring b = (case get_member b ''rings'' of Some (JArr rs) \<Rightarrow> rs \<noteq> [] | _ \<Rightarrow> False)"

definition is_landable :: "json \<Rightarrow> bool" where
  "is_landable b = (get_member b ''isLandable'' = Some (JBool True))"

text \<open>
  The body test in the words of the specification: at least one ring, landable, an
  atmosphere type that is not \<^verbatim>\<open>null\<close>.
\<close>

definition claimed_body_ok :: "json \<Rightarrow> bool" where
  "claimed_body_ok b =
     (has_ring b \<and> is_landable b
      \<and> (case get_member b ''atmosphereType'' of None \<Rightarrow> False | Some a \<Rightarrow> a \<noteq> JNull))"

definition claimed_match :: "json \<Rightarrow> bool" where
  "claimed_match obj = (first_level obj \<and> list_ex claimed_body_ok (bodies_of obj))"

text \<open>
  The body test the code applies: the atmosphere type must be truthy, which excludes the
  empty text, zero and \<^verbatim>\<open>false\<close> as well as \<^verbatim>\<open>null\<close>.
\<close>

definition body_ok :: "json \<Rightarrow> bool" where
  "body_ok b = (has_ring b \<and> is_landable b \<and> truthy (get_member b ''atmosphereType''))"

section \<open>Example files\<close>

text \<open>
  The record of the end-to-end scenario of the specification, as one line of the file and
  as the value it decodes to, with its two bodies and the row it leads to.
\<close>

definition sol_text :: string where
  \<open>sol_text = ''{"name":"Sol","population":0,"coords":{"x":0,"y":0,"z":0},"bodies":[{"name":"A","rings":[],"isLandable":true,"atmosphereType":"Thin"},{"name":"B","rings":[{"name":"R1"}],"isLandable":true,"atmosphereType":"Thick"}]}''\<close>

definition sol_line :: string where
  "sol_line = sol_text @ '',''"

definition body_A :: json where
  "body_A = JObj [(''name'', JStr ''A''), (''rings'', JArr []), (''isLandable'', JBool True),
                  (''atmosphereType'', JStr ''Thin'')]"

definition body_B :: json where
  "body_B = JObj [(''name'', JStr ''B''), (''rings'', JArr [JObj [(''name'', JStr ''R1'')]]),
                  (''isLandable'', JBool True), (''atmosphereType'', JStr ''Thick'')]"

definition sol_record :: json where
  "sol_record =
     JObj [(''name'', JStr ''Sol''), (''population'', JNum (Fin 0)),
           (''coords'', JObj [(''x'', JNum (Fin 0)), (''y'', JNum (Fin 0)), (''z'', JNum (Fin 0))]),
           (''bodies'', JArr [body_A, body_B])]"

definition body_B_text :: string where
  \<open>body_B_text = ''{"name":"B","rings":[{"name":"R1"}],"isLandable":true,"atmosphereType":"Thick"}''\<close>

definition sol_row :: row where
  "sol_row = \<lparr>system_name = Some (JStr ''Sol''), x_col = Some (JNum (Fin 0)),
     y_col = Some (JNum (Fin 0)), z_col = Some (JNum (Fin 0)),
     matched_body_name = Some (JStr ''B''), matched_body = Some (JStr body_B_text),
     system_data = Some (JStr sol_text)\<rparr>"

text \<open>
  The text of the scenario record, broken after the comma that follows its coordinates: a
  position at which JSON allows white space.
\<close>

definition sol_head :: string where
  \<open>sol_head = ''{"name":"Sol","population":0,"coords":{"x":0,"y":0,"z":0},''\<close>

definition sol_tail :: string where
  \<open>sol_tail = ''"bodies":[{"name":"A","rings":[],"isLandable":true,"atmosphereType":"Thin"},{"name":"B","rings":[{"name":"R1"}],"isLandable":true,"atmosphereType":"Thick"}]},''\<close>

text \<open>
  The record of the scenario with the coordinate \<^verbatim>\<open>x\<close> given as an object: the match
  predicate returns its body, and the insert statement refuses the object.
\<close>

definition boxed_text :: string where
  \<open>boxed_text = ''{"name":"Sol","population":0,"coords":{"x":{"ly":0},"y":0,"z":0},"bodies":[{"name":"B","rings":[{"name":"R1"}],"isLandable":true,"atmosphereType":"Thick"}]}''\<close>

definition boxed_record :: json where
  "boxed_record =
     JObj [(''name'', JStr ''Sol''), (''population'', JNum (Fin 0)),
           (''coords'', JObj [(''x'', JObj [(''ly'', JNum (Fin 0))]), (''y'', JNum (Fin 0)),
                              (''z'', JNum (Fin 0))]),
           (''bodies'', JArr [body_B])]"

text \<open>
  A record whose name is an object: the driver reads the name as the bindings of the
  statement, and the reference driver stores a row with NULL in every column.
\<close>

definition named_text :: string where
  \<open>named_text = ''{"name":{"en":"Sol"},"population":0,"coords":{"x":0,"y":0,"z":0},"bodies":[{"name":"B","rings":[{"name":"R1"}],"isLandable":true,"atmosphereType":"Thick"}]}''\<close>

definition named_record :: json where
  "named_record =
     JObj [(''name'', JObj [(''en'', JStr ''Sol'')]), (''population'', JNum (Fin 0)),
           (''coords'', JObj [(''x'', JNum (Fin 0)), (''y'', JNum (Fin 0)), (''z'', JNum (Fin 0))]),
           (''bodies'', JArr [body_B])]"

text \<open>
  A record whose population is one, a record whose coordinates lack two fields, a record
  with a coordinate beyond the doubles (as decoded, and with the coordinate the stored text
  decodes to), and a record whose only body has the empty text as its atmosphere type.
\<close>

definition pop_text :: string where
  \<open>pop_text = ''{"name":"Pop","population":1,"coords":{"x":0,"y":0,"z":0},"bodies":[{"name":"B","rings":[{"name":"R1"}],"isLandable":true,"atmosphereType":"Thick"}]}''\<close>

definition pop_record :: json where
  "pop_record =
     JObj [(''name'', JStr ''Pop''), (''population'', JNum (Fin 1)),
           (''coords'', JObj [(''x'', JNum (Fin 0)), (''y'', JNum (Fin 0)), (''z'', JNum (Fin 0))]),
           (''bodies'', JArr [body_B])]"

definition flat_text :: string where
  \<open>flat_text = ''{"name":"Flat","population":0,"coords":{"x":1},"bodies":[{"name":"B","rings":[{"name":"R1"}],"isLandable":true,"atmosphereType":"Thick"}]}''\<close>

definition flat_record :: json where
  "flat_record =
     JObj [(''name'', JStr ''Flat''), (''population'', JNum (Fin 0)),
           (''coords'', JObj [(''x'', JNum (Fin 1))]), (''bodies'', JArr [body_B])]"




definition blank_atmosphere_body :: json where
  "blank_atmosphere_body =
     JObj [(''name'', JStr ''B''), (''rings'', JArr [JObj [(''name'', JStr ''R1'')]]),
           (''isLandable'', JBool True), (''atmosphereType'', JStr [])]"

definition blank_atmosphere_record :: json where
  "blank_atmosphere_record =
     JObj [(''name'', JStr ''S''), (''population'', JNum (Fin 0)),
           (''coords'', JObj [(''x'', JNum (Fin 1)), (''y'', JNum (Fin 2)), (''z'', JNum (Fin 3))]),
           (''bodies'', JArr [blank_atmosphere_body])]"

text \<open>A record with a population and a body list on which a scan would throw.\<close>

definition populated_record :: "(string \<times> json) list" where
  "populated_record =
     [(''name'', JStr ''P''), (''population'', JNum (Fin 1)),
      (''coords'', JObj [(''x'', JNum (Fin 1)), (''y'', JNum (Fin 2)), (''z'', JNum (Fin 3))]),
      (''bodies'', JArr [JNull])]"

section \<open>The match predicate\<close>

lemma scanBodies_qualifies:
  "scanBodies rt bodies i = Inr (Some b) \<Longrightarrow> qualifies rt (Some b) = Inr True"
proof (induction rt bodies i rule: scanBodies.induct)
  case (1 rt bodies i)
  from "1.prems" show ?case
    apply (subst (asm) scanBodies.simps)
    apply (auto split: sum.splits if_splits option.splits intro: "1.IH")
    done
qed

lemma getProp_truthy_no_throw: "truthy v \<Longrightarrow> \<exists>w. getProp v k = Inr w"
  by (cases "(v, k)" rule: getProp.cases) auto

lemma qualifies_True_not_null:
  "qualifies rt (Some b) = Inr True \<Longrightarrow> \<exists>w. getProp (Some b) k = Inr w"
  by (cases b) (auto simp: qualifies_def)

lemma match_mkRow:
  assumes "matchPredicate rt obj = Inr (Some b)"
  shows "\<exists>r. mkRow rt obj b = Inr r"
proof -
  from assms obtain bodies coords where
    b: "getProp (Some obj) ''bodies'' = Inr bodies" "truthy bodies"
    and c: "getProp (Some obj) ''coords'' = Inr coords" "truthy coords"
    and s: "scanBodies rt bodies 0 = Inr (Some b)"
    by (auto simp: matchPredicate_def split: sum.splits if_splits)
  from b obtain nm where nm: "getProp (Some obj) ''name'' = Inr nm"
    by (cases obj) auto
  from c(2) obtain cx cy cz where
    "getProp coords ''x'' = Inr cx" "getProp coords ''y'' = Inr cy" "getProp coords ''z'' = Inr cz"
    using getProp_truthy_no_throw by blast
  moreover from scanBodies_qualifies [OF s] obtain bn where "getProp (Some b) ''name'' = Inr bn"
    using qualifies_True_not_null by blast
  ultimately show ?thesis
    using nm c(1) by (simp add: mkRow_def)
qed

lemma argsOf_eq_Some_iff: "(\<exists>args. argsOf rt obj = Some args) \<longleftrightarrow> matches rt obj"
proof (cases "matchPredicate rt obj")
  case (Inl e)
  then show ?thesis by (simp add: argsOf_def matches_def)
next
  case (Inr found)
  show ?thesis
  proof (cases found)
    case None
    with Inr show ?thesis by (simp add: argsOf_def matches_def)
  next
    case (Some body)
    with Inr match_mkRow [of rt obj body] obtain args where "mkRow rt obj body = Inr args"
      by blast
    with Inr Some show ?thesis by (simp add: argsOf_def matches_def)
  qed
qed

lemma argsOf_texts:
  assumes "argsOf rt obj = Some args"
  shows "\<exists>body. matchPredicate rt obj = Inr (Some body) \<and> mkRow rt obj body = Inr args
     \<and> matched_body args = Some (JStr (stringify rt body))
     \<and> system_data args = Some (JStr (stringify rt obj))
     \<and> getProp (Some obj) ''name'' = Inr (system_name args)"
proof -
  from assms obtain body where m: "matchPredicate rt obj = Inr (Some body)"
    and mk: "mkRow rt obj body = Inr args"
    by (auto simp: argsOf_def split: sum.splits option.splits)
  from mk obtain name coords cx cy cz bname where
    "getProp (Some obj) ''name'' = Inr name"
    "args = \<lparr>system_name = name, x_col = cx, y_col = cy, z_col = cz,
                 matched_body_name = bname, matched_body = Some (JStr (stringify rt body)),
                 system_data = Some (JStr (stringify rt obj))\<rparr>"
    unfolding mkRow_def by (simp split: sum.splits) blast
  then have "matched_body args = Some (JStr (stringify rt body))"
    "system_data args = Some (JStr (stringify rt obj))"
    "getProp (Some obj) ''name'' = Inr (system_name args)"
    by simp_all
  with m mk show ?thesis by blast
qed

lemma bindable_name_run:
  assumes "bindable (system_name args)"
  shows "insertStmt_run rt args =
     (if list_all bindable [x_col args, y_col args, z_col args, matched_body_name args,
                            matched_body args, system_data args]
      then Inr args else Inl TypeError)"
proof (cases "system_name args")
  case None
  then show ?thesis by (simp only: insertStmt_run_def option.case)
next
  case (Some v)
  with assms show ?thesis
    by (cases v) (simp_all only: insertStmt_run_def option.case json.case bindable_def)
qed

lemma rowOf_storable: "storable rt obj \<Longrightarrow> rowOf rt obj = argsOf rt obj"
proof (cases "argsOf rt obj")
  case None
  then show ?thesis by (simp add: rowOf_def)
next
  case (Some args)
  assume "storable rt obj"
  with Some have b: "bindable (system_name args)" "bindable (x_col args)" "bindable (y_col args)"
    "bindable (z_col args)" "bindable (matched_body_name args)"
    by (simp_all add: storable_def)
  from argsOf_texts [OF Some] obtain body where
    "matched_body args = Some (JStr (stringify rt body))"
    "system_data args = Some (JStr (stringify rt obj))"
    by blast
  then have "bindable (matched_body args)" "bindable (system_data args)"
    by (simp_all add: bindable_def)
  with b have "insertStmt_run rt args = Inr args"
    by (simp add: bindable_name_run)
  with Some show ?thesis
    by (simp add: rowOf_def)
qed

lemma rowOf_Some_matches: "rowOf rt obj = Some r \<Longrightarrow> matches rt obj"
  using argsOf_eq_Some_iff [of rt obj] by (auto simp: rowOf_def split: option.splits)

lemma rowOf_bindable_name:
  assumes "rowOf rt obj = Some r" and "getProp (Some obj) ''name'' = Inr name" and "bindable name"
  shows "argsOf rt obj = Some r"
proof -
  from assms(1) obtain args where a: "argsOf rt obj = Some args"
    and run: "insertStmt_run rt args = Inr r"
    by (auto simp: rowOf_def split: option.splits sum.splits)
  from argsOf_texts [OF a] assms(2,3) have "bindable (system_name args)" by auto
  from run have "args = r"
    unfolding bindable_name_run [OF \<open>bindable (system_name args)\<close>] by (simp split: if_splits)
  with a show ?thesis by simp
qed

lemma length_map_filter_argsOf:
  "length (List.map_filter (argsOf rt) objs) = length (filter (matches rt) objs)"
proof (induction objs)
  case Nil
  then show ?case by (simp add: List.map_filter_simps)
next
  case (Cons obj objs)
  then show ?case
    using argsOf_eq_Some_iff [of rt obj]
    by (cases "argsOf rt obj") (auto simp: List.map_filter_simps)
qed

lemma map_filter_rowOf_storable:
  "list_all (storable rt) objs \<Longrightarrow> List.map_filter (rowOf rt) objs = List.map_filter (argsOf rt) objs"
  by (induction objs) (simp_all add: List.map_filter_simps rowOf_storable split: option.splits)

lemma in_map_filterD: "r \<in> set (List.map_filter f xs) \<Longrightarrow> \<exists>x\<in>set xs. f x = Some r"
  by (auto simp: List.map_filter_def)

lemma argsOf_coords:
  assumes "argsOf rt obj = Some r"
  shows "\<exists>coords. getProp (Some obj) ''coords'' = Inr coords \<and> truthy coords
     \<and> getProp coords ''x'' = Inr (x_col r) \<and> getProp coords ''y'' = Inr (y_col r)
     \<and> getProp coords ''z'' = Inr (z_col r)"
proof -
  from assms obtain body where m: "matchPredicate rt obj = Inr (Some body)"
    and mk: "mkRow rt obj body = Inr r"
    by (auto simp: argsOf_def split: sum.splits option.splits)
  from m obtain coords where c: "getProp (Some obj) ''coords'' = Inr coords" "truthy coords"
    by (auto simp: matchPredicate_def split: sum.splits if_splits)
  from mk c(1) have "getProp coords ''x'' = Inr (x_col r) \<and> getProp coords ''y'' = Inr (y_col r)
     \<and> getProp coords ''z'' = Inr (z_col r)"
    by (auto simp: mkRow_def split: sum.splits)
  with c show ?thesis by blast
qed

lemma rowOf_name:
  assumes "rowOf rt obj = Some r"
  shows "\<exists>name. getProp (Some obj) ''name'' = Inr name"
proof -
  from assms obtain args where "argsOf rt obj = Some args"
    by (auto simp: rowOf_def split: option.splits)
  from argsOf_texts [OF this] show ?thesis by blast
qed

text \<open>The scan over a list of bodies stops at the first body that passes the test.\<close>

lemma scanBodies_array_first:
  "scanBodies rt (Some (JArr bs)) i = Inr (Some b) \<Longrightarrow>
   \<exists>k. i \<le> k \<and> k < length bs \<and> bs ! k = b \<and> qualifies rt (Some b) = Inr True
       \<and> (\<forall>j. i \<le> j \<and> j < k \<longrightarrow> qualifies rt (Some (bs ! j)) = Inr False)"
proof (induction rt "Some (JArr bs)" i rule: scanBodies.induct)
  case (1 rt i)
  from "1.prems" have lt: "i < length bs"
    by (subst (asm) scanBodies.simps) (auto split: if_splits)
  show ?case
  proof (cases "qualifies rt (Some (bs ! i))")
    case (Inl e)
    with "1.prems" lt show ?thesis
      by (subst (asm) scanBodies.simps) simp
  next
    case (Inr found)
    show ?thesis
    proof (cases found)
      case True
      with Inr "1.prems" lt have "b = bs ! i"
        by (subst (asm) scanBodies.simps) simp
      with Inr True lt show ?thesis
        by (intro exI [of _ i]) auto
    next
      case False
      with Inr "1.prems" lt have rec: "scanBodies rt (Some (JArr bs)) (Suc i) = Inr (Some b)"
        by (subst (asm) scanBodies.simps) simp
      have "\<exists>k\<ge>Suc i. k < length bs \<and> bs ! k = b \<and> qualifies rt (Some b) = Inr True
          \<and> (\<forall>j. Suc i \<le> j \<and> j < k \<longrightarrow> qualifies rt (Some (bs ! j)) = Inr False)"
        using "1.hyps" [of "Some (JNum (Fin (of_nat (length bs))))" "Fin (of_nat (length bs))"
            "Some (bs ! i)" "bs ! i" found] lt Inr False rec
        by simp
      then obtain k where k: "Suc i \<le> k" "k < length bs" "bs ! k = b"
        "qualifies rt (Some b) = Inr True"
        "\<forall>j. Suc i \<le> j \<and> j < k \<longrightarrow> qualifies rt (Some (bs ! j)) = Inr False"
        by blast
      have "\<forall>j. i \<le> j \<and> j < k \<longrightarrow> qualifies rt (Some (bs ! j)) = Inr False"
      proof (intro allI impI)
        fix j assume "i \<le> j \<and> j < k"
        then have "j = i \<or> (Suc i \<le> j \<and> j < k)" by auto
        then show "qualifies rt (Some (bs ! j)) = Inr False"
          using k(5) Inr False by auto
      qed
      with k show ?thesis
        by (intro exI [of _ k]) simp
    qed
  qed
qed

lemma truthy_not_null: "truthy v \<Longrightarrow> v \<noteq> Some JNull"
  by auto

lemma qualifies_body_record:
  assumes "is_body_record b"
  shows "qualifies rt (Some b) = Inr (body_ok b)"
proof -
  from assms obtain ms where b: "b = JObj ms"
    by (cases b) (simp_all add: is_body_record_def)
  show ?thesis
  proof (cases "map_of ms ''rings''")
    case None
    with b show ?thesis
      by (simp add: qualifies_def body_ok_def has_ring_def get_member_def)
  next
    case (Some rings)
    with assms b consider "rings = JNull" | rs where "rings = JArr rs"
      by (cases rings) (simp_all add: is_body_record_def)
    then show ?thesis
    proof cases
      case 1
      with b Some show ?thesis
        by (simp add: qualifies_def body_ok_def has_ring_def get_member_def)
    next
      case 2
      with b Some show ?thesis
        using truthy_not_null [of "map_of ms ''atmosphereType''"]
        by (auto simp: qualifies_def body_ok_def has_ring_def is_landable_def get_member_def)
    qed
  qed
qed

lemma scanBodies_body_records:
  assumes "list_all is_body_record bs"
  shows "scanBodies rt (Some (JArr bs)) i = Inr (find body_ok (drop i bs))"
  using assms
proof (induction "length bs - i" arbitrary: i)
  case 0
  then have "drop i bs = []" by simp
  with 0 show ?case
    by (subst scanBodies.simps) simp
next
  case (Suc n)
  then have lt: "i < length bs" by simp
  then have d: "drop i bs = bs ! i # drop (Suc i) bs"
    by (simp add: Cons_nth_drop_Suc)
  from Suc.prems lt have "is_body_record (bs ! i)"
    by (simp add: list_all_length)
  then have q: "qualifies rt (Some (bs ! i)) = Inr (body_ok (bs ! i))"
    by (rule qualifies_body_record)
  from Suc.hyps(2) have "n = length bs - Suc i" by simp
  from Suc.hyps(1) [OF this Suc.prems]
  have "scanBodies rt (Some (JArr bs)) (Suc i) = Inr (find body_ok (drop (Suc i) bs))" .
  with lt q d show ?case
    by (subst scanBodies.simps) simp
qed

lemma matchPredicate_system_record:
  assumes "is_system_record obj"
  shows "matchPredicate rt obj = Inr (if first_level obj then find body_ok (bodies_of obj) else None)"
proof -
  from assms obtain ms where obj: "obj = JObj ms"
    by (cases obj) (simp_all add: is_system_record_def)
  show ?thesis
  proof (cases "\<exists>bs. map_of ms ''bodies'' = Some (JArr bs)")
    case False
    with assms obj have "\<not> truthy (map_of ms ''bodies'')" "\<not> first_level obj"
      by (auto simp: is_system_record_def first_level_def get_member_def
          split: option.splits json.splits)
    with obj show ?thesis by (simp add: matchPredicate_def)
  next
    case True
    then obtain bs where bs: "map_of ms ''bodies'' = Some (JArr bs)" by blast
    with assms obj have rec: "list_all is_body_record bs"
      by (simp add: is_system_record_def)
    from assms obj have c: "truthy (map_of ms ''coords'')
        \<longleftrightarrow> (case map_of ms ''coords'' of Some (JObj cs) \<Rightarrow> True | _ \<Rightarrow> False)"
      by (auto simp: is_system_record_def split: option.splits json.splits)
    show ?thesis
      using obj bs c scanBodies_body_records [OF rec, of rt 0]
      by (simp add: matchPredicate_def first_level_def bodies_of_def get_member_def)
  qed
qed

lemma matchPredicate_first_level:
  assumes "\<not> truthy (map_of ms ''bodies'') \<or> map_of ms ''population'' \<noteq> Some (JNum (Fin 0))
           \<or> \<not> truthy (map_of ms ''coords'')"
  shows "matchPredicate rt (JObj ms) = Inr None"
  using assms by (auto simp: matchPredicate_def)

section \<open>The loop and the store\<close>

lemma db_insert_in_txn:
  "inTxn d \<Longrightarrow> db_insert r d = d\<lparr>pending := pending d @ [r]\<rparr>"
  by (simp add: db_insert_def)

lemma commitBatch_batching:
  assumes "inTxn (db st)" "batchCount st = length (pending (db st))" "batchCount st \<le> 500"
    and "list_all (\<lambda>b. length b = 500) (committed (db st))"
  shows "\<exists>st'. commitBatch st = Inr st' \<and> batching st' \<and> all_rows (db st') = all_rows (db st)
     \<and> processed st' = processed st \<and> totalChecked st' = totalChecked st
     \<and> buffer st' = buffer st \<and> insideArray st' = insideArray st \<and> console st' = console st"
proof (cases "batchCount st \<ge> 500")
  case True
  with assms show ?thesis
    by (simp add: commitBatch_def db_commit_def db_begin_def batching_def all_rows_def)
next
  case False
  with assms show ?thesis
    by (simp add: commitBatch_def batching_def)
qed

lemma logProgress_fields [simp]:
  "db (logProgress st) = db st" "processed (logProgress st) = processed st"
  "totalChecked (logProgress st) = totalChecked st" "buffer (logProgress st) = buffer st"
  "insideArray (logProgress st) = insideArray st" "batchCount (logProgress st) = batchCount st"
  by (simp_all add: logProgress_def)

lemma batching_logProgress [simp]: "batching (logProgress st) = batching st"
  by (simp add: batching_def)

lemma storeMatch_batching:
  assumes "batching st" and "mkRow rt obj body = Inr args" and "insertStmt_run rt args = Inr r"
  shows "\<exists>st'. storeMatch rt obj body st = Inr st' \<and> batching st'
     \<and> all_rows (db st') = all_rows (db st) @ [r]
     \<and> processed st' = processed st + 1 \<and> totalChecked st' = totalChecked st
     \<and> buffer st' = buffer st \<and> insideArray st' = insideArray st"
proof -
  let ?st1 = "st\<lparr>db := db_insert r (db st), processed := processed st + 1,
                  batchCount := batchCount st + 1\<rparr>"
  from assms(1) have "inTxn (db ?st1)" "batchCount ?st1 = length (pending (db ?st1))"
    "batchCount ?st1 \<le> 500" "list_all (\<lambda>b. length b = 500) (committed (db ?st1))"
    by (simp_all add: batching_def db_insert_in_txn)
  from commitBatch_batching [OF this] obtain st' where
    st': "commitBatch ?st1 = Inr st'" "batching st'" "all_rows (db st') = all_rows (db ?st1)"
      "processed st' = processed ?st1" "totalChecked st' = totalChecked ?st1"
      "buffer st' = buffer ?st1" "insideArray st' = insideArray ?st1"
    by blast
  have "all_rows (db ?st1) = all_rows (db st) @ [r]"
    using assms(1) by (simp add: all_rows_def batching_def db_insert_in_txn)
  with st' assms(2,3) show ?thesis
    by (simp add: storeMatch_def)
qed

lemma storeMatch_refused:
  assumes "mkRow rt obj body = Inr args" and "insertStmt_run rt args = Inl e"
  shows "storeMatch rt obj body st = Inl (e, st)"
  using assms by (simp add: storeMatch_def)

lemma onLine_inside:
  "trim line \<noteq> ''['' \<Longrightarrow> trim line \<noteq> '']'' \<Longrightarrow> insideArray st \<Longrightarrow>
   onLine rt st line = Continue (after_try (tryBlock rt (st\<lparr>buffer := buffer st @ strip_comma (trim line)\<rparr>)))"
  by (simp add: onLine_def after_try_def Let_def split: sum.splits prod.splits)

lemma onLine_cases:
  "onLine rt st line =
     (if trim line = ''['' then Continue (st\<lparr>insideArray := True\<rparr>)
      else if trim line = '']'' then Break st
      else if \<not> insideArray st then Continue st
      else Continue (after_try (tryBlock rt (st\<lparr>buffer := buffer st @ strip_comma (trim line)\<rparr>))))"
  by (simp add: onLine_def after_try_def Let_def split: sum.splits prod.splits)

lemma tryBlock_parsed:
  assumes "batching st" and "parse rt (buffer st) = Some obj"
  shows "batching (after_try (tryBlock rt st))
     \<and> all_rows (db (after_try (tryBlock rt st)))
         = all_rows (db st) @ (case rowOf rt obj of None \<Rightarrow> [] | Some r \<Rightarrow> [r])
     \<and> processed (after_try (tryBlock rt st))
         = processed st + (case rowOf rt obj of None \<Rightarrow> 0 | Some r \<Rightarrow> 1)
     \<and> totalChecked (after_try (tryBlock rt st)) = totalChecked st + 1
     \<and> buffer (after_try (tryBlock rt st)) = []
     \<and> insideArray (after_try (tryBlock rt st)) = insideArray st"
proof -
  let ?st1 = "st\<lparr>buffer := [], totalChecked := totalChecked st + 1\<rparr>"
  have b1: "batching ?st1" using assms(1) by (simp add: batching_def)
  show ?thesis
  proof (cases "matchPredicate rt obj")
    case (Inl e)
    with assms b1 show ?thesis
      by (simp add: tryBlock_def after_try_def catchBlock_def rowOf_def argsOf_def)
  next
    case (Inr found)
    show ?thesis
    proof (cases found)
      case None
      with Inr assms b1 show ?thesis
        by (simp add: tryBlock_def after_try_def rowOf_def argsOf_def)
    next
      case (Some body)
      with Inr obtain args where a: "mkRow rt obj body = Inr args"
        using match_mkRow by blast
      show ?thesis
      proof (cases "insertStmt_run rt args")
        case refused: (Inl e)
        from storeMatch_refused [OF a refused]
        have "storeMatch rt obj body ?st1 = Inl (e, ?st1)" .
        with Inr Some a refused assms b1 show ?thesis
          by (simp add: tryBlock_def after_try_def catchBlock_def rowOf_def argsOf_def)
      next
        case stored: (Inr r)
        from storeMatch_batching [OF b1 a stored] obtain st' where
          "storeMatch rt obj body ?st1 = Inr st'" "batching st'"
          "all_rows (db st') = all_rows (db ?st1) @ [r]"
          "processed st' = processed ?st1 + 1" "totalChecked st' = totalChecked ?st1"
          "buffer st' = buffer ?st1" "insideArray st' = insideArray ?st1"
          by blast
        with Inr Some a stored assms(2) show ?thesis
          by (simp add: tryBlock_def after_try_def rowOf_def argsOf_def)
      qed
    qed
  qed
qed

lemma tryBlock_unparsed:
  assumes "parse rt (buffer st) = None"
  shows "after_try (tryBlock rt st) = st\<lparr>buffer := keep_fragment (buffer st)\<rparr>"
  using assms by (simp add: tryBlock_def after_try_def catchBlock_def keep_fragment_def)

text \<open>The loop against the reassembler: rows, counters and the batching invariant.\<close>

lemma forLines_reassemble:
  assumes "batching st"
  shows "batching (forLines rt st lines)
     \<and> all_rows (db (forLines rt st lines))
         = all_rows (db st) @ List.map_filter (rowOf rt) (reassemble rt (buffer st) (insideArray st) lines)
     \<and> processed (forLines rt st lines)
         = processed st + length (List.map_filter (rowOf rt) (reassemble rt (buffer st) (insideArray st) lines))
     \<and> totalChecked (forLines rt st lines)
         = totalChecked st + length (reassemble rt (buffer st) (insideArray st) lines)"
  using assms
proof (induction lines arbitrary: st)
  case Nil
  then show ?case by (simp add: List.map_filter_simps reassemble.simps)
next
  case (Cons line rest)
  show ?case
  proof (cases "trim line = ''[''")
    case True
    have "batching (st\<lparr>insideArray := True\<rparr>)"
      using Cons.prems by (simp add: batching_def)
    from Cons.IH [OF this] True show ?thesis
      by (simp add: onLine_def reassemble.simps)
  next
    case no: False
    show ?thesis
    proof (cases "trim line = '']''")
      case True
      with no Cons.prems show ?thesis
        by (simp add: onLine_def List.map_filter_simps reassemble.simps)
    next
      case nc: False
      show ?thesis
      proof (cases "insideArray st")
        case False
        with no nc Cons.IH [OF Cons.prems] show ?thesis
          by (simp add: onLine_def reassemble.simps)
      next
        case True
        let ?st0 = "st\<lparr>buffer := buffer st @ strip_comma (trim line)\<rparr>"
        let ?st1 = "after_try (tryBlock rt ?st0)"
        have step: "onLine rt st line = Continue ?st1"
          using no nc True by (rule onLine_inside)
        have b0: "batching ?st0" using Cons.prems by (simp add: batching_def)
        show ?thesis
        proof (cases "parse rt (buffer st @ strip_comma (trim line))")
          case None
          then have eq: "?st1 = st\<lparr>buffer := keep_fragment (buffer st @ strip_comma (trim line))\<rparr>"
            using tryBlock_unparsed [of rt ?st0] by simp
          have "batching ?st1" unfolding eq using Cons.prems by (simp add: batching_def)
          from Cons.IH [OF this] show ?thesis
            using no nc True None step by (simp add: eq reassemble.simps)
        next
          case (Some obj)
          then have p: "parse rt (buffer ?st0) = Some obj" by simp
          note t = tryBlock_parsed [OF b0 p]
          from t have b1: "batching ?st1" by blast
          from Cons.IH [OF b1] t show ?thesis
            using no nc True Some step
            by (cases "rowOf rt obj") (simp_all add: List.map_filter_simps reassemble.simps)
        qed
      qed
    qed
  qed
qed

lemma batching_start: "batching started"
  by (simp add: batching_def started_def initial_def)

text \<open>The whole run in terms of the reassembler.\<close>

lemma processFile_run:
  shows "processFile rt lines = Inr (finish (forLines rt started lines))"
    and "batching (forLines rt started lines)"
    and "all_rows (db (forLines rt started lines))
           = List.map_filter (rowOf rt) (reassemble rt [] False lines)"
    and "processed (forLines rt started lines)
           = length (List.map_filter (rowOf rt) (reassemble rt [] False lines))"
    and "totalChecked (forLines rt started lines) = length (reassemble rt [] False lines)"
proof -
  note r = forLines_reassemble [OF batching_start, of rt lines]
  from r show b: "batching (forLines rt started lines)" by blast
  from r show "all_rows (db (forLines rt started lines))
           = List.map_filter (rowOf rt) (reassemble rt [] False lines)"
    by (simp add: started_def initial_def all_rows_def)
  from r show "processed (forLines rt started lines)
           = length (List.map_filter (rowOf rt) (reassemble rt [] False lines))"
    by (simp add: started_def initial_def)
  from r show "totalChecked (forLines rt started lines) = length (reassemble rt [] False lines)"
    by (simp add: started_def initial_def)
  have "db_begin (db initial) = Inr (db started)"
    by (simp add: db_begin_def started_def initial_def)
  moreover have "initial\<lparr>db := db started\<rparr> = started"
    by (simp add: started_def)
  moreover have "inTxn (db (forLines rt started lines))" using b by (simp add: batching_def)
  ultimately show "processFile rt lines = Inr (finish (forLines rt started lines))"
    by (simp add: processFile_def db_commit_def finish_def Let_def)
qed

lemma rows_of_processFile:
  "rows_of (processFile rt lines) = List.map_filter (rowOf rt) (reassemble rt [] False lines)"
  using processFile_run(3) [of rt lines]
  by (simp add: processFile_run(1) rows_of_def persisted_def all_rows_def finish_def)

lemma commitBatch_insideArray: "insideArray (state_of (commitBatch st)) = insideArray st"
  by (simp add: commitBatch_def state_of_def split: sum.splits)

lemma storeMatch_insideArray: "insideArray (state_of (storeMatch rt obj body st)) = insideArray st"
proof (cases "mkRow rt obj body")
  case (Inl e)
  then show ?thesis by (simp add: storeMatch_def state_of_def)
next
  case args: (Inr args)
  show ?thesis
  proof (cases "insertStmt_run rt args")
    case (Inl e)
    with args show ?thesis by (simp add: storeMatch_def state_of_def)
  next
    case (Inr r)
    let ?st1 = "st\<lparr>db := db_insert r (db st), processed := processed st + 1,
                    batchCount := batchCount st + 1\<rparr>"
    have "insideArray (state_of (commitBatch ?st1)) = insideArray st"
      by (simp add: commitBatch_insideArray)
    with args Inr show ?thesis
      by (cases "commitBatch ?st1") (auto simp: storeMatch_def state_of_def)
  qed
qed

lemma tryBlock_insideArray: "insideArray (after_try (tryBlock rt st)) = insideArray st"
proof (cases "parse rt (buffer st)")
  case None
  then show ?thesis by (simp add: tryBlock_unparsed)
next
  case (Some obj)
  let ?st1 = "st\<lparr>buffer := [], totalChecked := totalChecked st + 1\<rparr>"
  have cb: "insideArray (catchBlock s) = insideArray s" for s
    by (simp add: catchBlock_def)
  show ?thesis
  proof (cases "matchPredicate rt obj")
    case (Inl e)
    with Some show ?thesis by (simp add: tryBlock_def after_try_def cb)
  next
    case (Inr found)
    show ?thesis
    proof (cases found)
      case None
      with Inr Some show ?thesis by (simp add: tryBlock_def after_try_def)
    next
      case (Some body)
      have "insideArray (state_of (storeMatch rt obj body ?st1)) = insideArray st"
        by (simp add: storeMatch_insideArray)
      with Inr Some \<open>parse rt (buffer st) = Some obj\<close> show ?thesis
        by (cases "storeMatch rt obj body ?st1")
           (auto simp: tryBlock_def after_try_def state_of_def cb)
    qed
  qed
qed

lemma forLines_stops:
  "trim line = '']'' \<Longrightarrow> forLines rt st (before @ line # rest) = forLines rt st (before @ [line])"
proof (induction before arbitrary: st)
  case Nil
  then show ?case by (simp add: onLine_cases)
next
  case (Cons l ls)
  then show ?case by (cases "onLine rt st l") simp_all
qed

lemma length_concat_batches:
  "list_all (\<lambda>b. length b = k) bs \<Longrightarrow> length (concat bs) = k * length bs"
  by (induction bs) simp_all

lemma two_batches:
  assumes "concat cs = replicate 501 r" "cs \<noteq> []"
    "list_all (\<lambda>b. length b = 500) (butlast cs)" "length (last cs) < 500"
  shows "cs = [replicate 500 r, [r]]"
proof -
  from assms(2) have split: "cs = butlast cs @ [last cs]" by simp
  have "length (concat cs) = length (concat (butlast cs)) + length (last cs)"
    by (subst split) simp
  with assms(1,3) have "500 * length (butlast cs) + length (last cs) = 501"
    by (simp add: length_concat_batches)
  with assms(4) have n: "length (butlast cs) = 1" "length (last cs) = 1" by arith+
  then obtain b where b: "butlast cs = [b]"
    by (cases "butlast cs") simp_all
  with assms(3) have lb: "length b = 500" by simp
  from split b have cs: "cs = [b, last cs]" by simp
  with assms(1) have eq: "b @ last cs = replicate 501 r"
    by (metis append_Nil2 concat.simps(1) concat.simps(2))
  then have "take 500 (b @ last cs) = take 500 (replicate 501 r)"
    "drop 500 (b @ last cs) = drop 500 (replicate 501 r)" by simp_all
  with lb have "b = replicate 500 r" "last cs = [r]" by simp_all
  with cs show ?thesis by simp
qed

section \<open>The reference runtime on the example files\<close>

lemmas lex_eval = tokenize.simps is_json_ws_def is_digit_def is_num_char_def json_number_def
  scan_decimal_def decimal_value_def digits_val_def digit_val_def scale10_def to_double_def
  hex_val_def hex4_def simple_escape_def Let_def

lemmas parse_eval = json_parse_def mk_object_def is_array_index_def

lemmas stringify_eval = quote_def quote_char_def

lemma js_fields:
  "parse js = json_parse" "stringify js = json_stringify" "coerce js = json_coerce"
  "bindings js = sqlite_bindings"
  by (simp_all add: js_def)

lemma trim_id:
  assumes "s \<noteq> []" "\<not> is_space (hd s)" "\<not> is_space (last s)"
  shows "trim s = s"
proof -
  have "dropWhile is_space s = s"
    using assms by (simp add: dropWhile_eq_self_iff)
  moreover have "dropWhile is_space (rev s) = rev s"
    using assms by (simp add: dropWhile_eq_self_iff hd_rev)
  ultimately show ?thesis by (simp add: trim_def)
qed

lemma strip_comma_snoc: "strip_comma (s @ '','') = s"
  by (simp add: strip_comma_def)

lemma trim_open: "trim ''['' = ''[''" by (simp add: trim_def is_space_def)

lemma trim_close: "trim '']'' = '']''" by (simp add: trim_def is_space_def)

lemma trim_sol_line: "trim sol_line = sol_line"
  by (rule trim_id) (simp_all add: sol_line_def sol_text_def is_space_def)

lemma sol_line_not_bracket: "sol_line \<noteq> ''[''" "sol_line \<noteq> '']''"
  by (simp_all add: sol_line_def sol_text_def)

lemma strip_sol_line: "strip_comma sol_line = sol_text"
  by (simp add: sol_line_def strip_comma_snoc)

lemma parse_sol: "json_parse sol_text = Some sol_record"
  by (simp add: sol_text_def lex_eval parse_eval sol_record_def body_A_def body_B_def)

lemma reassemble_sol: "reassemble js [] False [''['', sol_line, '']''] = [sol_record]"
  by (simp add: reassemble.simps trim_open trim_close trim_sol_line sol_line_not_bracket js_fields
      strip_sol_line parse_sol)

lemma match_sol: "matchPredicate js sol_record = Inr (Some body_B)"
  by (simp add: matchPredicate_def sol_record_def scanBodies.simps qualifies_def body_A_def body_B_def)

lemma stringify_body_A:
  \<open>json_stringify body_A = ''{"name":"A","rings":[],"isLandable":true,"atmosphereType":"Thin"}''\<close>
  by (simp add: body_A_def stringify_eval)

lemma stringify_body_B: "json_stringify body_B = body_B_text"
  by (simp add: body_B_def body_B_text_def stringify_eval)

lemma stringify_sol: "json_stringify sol_record = sol_text"
  by (simp add: sol_record_def stringify_body_A stringify_body_B)
     (simp add: stringify_eval body_B_text_def sol_text_def)

lemma sol_props:
  "getProp (Some sol_record) ''name'' = Inr (Some (JStr ''Sol''))"
  "getProp (Some sol_record) ''coords''
     = Inr (Some (JObj [(''x'', JNum (Fin 0)), (''y'', JNum (Fin 0)), (''z'', JNum (Fin 0))]))"
  "getProp (Some body_B) ''name'' = Inr (Some (JStr ''B''))"
  by (simp_all add: sol_record_def body_B_def)

lemma mkRow_sol: "mkRow js sol_record body_B = Inr sol_row"
  by (simp add: mkRow_def js_fields stringify_body_B stringify_sol sol_row_def sol_props)

lemma argsOf_sol: "argsOf js sol_record = Some sol_row"
  by (simp add: argsOf_def match_sol mkRow_sol)

lemma storable_sol: "storable js sol_record"
  by (simp add: storable_def argsOf_sol) (simp add: sol_row_def bindable_def)

lemma rowOf_sol: "rowOf js sol_record = Some sol_row"
  by (simp add: rowOf_storable storable_sol argsOf_sol)

lemma parse_body_B: "json_parse body_B_text = Some body_B"
  by (simp add: body_B_text_def lex_eval parse_eval body_B_def)

lemma sol_is_system_record: "is_system_record sol_record"
  by (simp add: sol_record_def body_A_def body_B_def is_system_record_def is_body_record_def)

lemma sol_first_body: "first_level sol_record \<and> find body_ok (bodies_of sol_record) = Some body_B"
  by (simp add: sol_record_def body_A_def body_B_def first_level_def bodies_of_def
      get_member_def body_ok_def has_ring_def is_landable_def)

text \<open>A file of 501 records that all match: one full batch, and one row for the final commit.\<close>

lemma reassemble_sol_lines:
  "reassemble js [] True (replicate n sol_line @ ['']'']) = replicate n sol_record"
  by (induction n)
     (simp_all add: reassemble.simps trim_close trim_sol_line sol_line_not_bracket js_fields
        strip_sol_line parse_sol)

lemma rows_sol_records: "List.map_filter (rowOf js) (replicate n sol_record) = replicate n sol_row"
  by (induction n) (simp_all add: rowOf_sol)

lemma sol_head_tail: "sol_head @ sol_tail = sol_line"
  by (simp add: sol_head_def sol_tail_def sol_line_def sol_text_def)

lemma trim_sol_head: "trim sol_head = sol_head"
  by (rule trim_id) (simp_all add: sol_head_def is_space_def)

lemma trim_sol_tail: "trim sol_tail = sol_tail"
  by (rule trim_id) (simp_all add: sol_tail_def is_space_def)

lemma sol_parts_not_bracket:
  "sol_head \<noteq> ''[''" "sol_head \<noteq> '']''" "sol_tail \<noteq> ''[''" "sol_tail \<noteq> '']''"
  by (simp_all add: sol_head_def sol_tail_def)

lemma parse_spaced: "json_parse (sol_head @ '' '' @ strip_comma sol_tail) = Some sol_record"
  by (simp add: sol_head_def sol_tail_def strip_comma_def lex_eval parse_eval sol_record_def
      body_A_def body_B_def)

lemma parse_head: "json_parse (strip_comma sol_head) = None"
  by (simp add: sol_head_def strip_comma_def lex_eval parse_eval)

lemma parse_glued:
  "json_parse (keep_fragment (strip_comma sol_head) @ strip_comma sol_tail) = None"
  by (simp add: sol_head_def sol_tail_def strip_comma_def keep_fragment_def lex_eval parse_eval)

lemma parse_open_bodies: \<open>json_parse ''{"name":"N","bodies":['' = None\<close>
  by (simp add: lex_eval parse_eval)

lemma parse_empty_bodies:
  \<open>json_parse ''{"name":"N","bodies":[ ] }'' = Some (JObj [(''name'', JStr ''N''), (''bodies'', JArr [])])\<close>
  by (simp add: lex_eval parse_eval)

lemma parse_malformed: \<open>json_parse ''}{'' = None\<close>
  by (simp add: lex_eval parse_eval)

lemma parse_incomplete: \<open>json_parse ''{"a":'' = None\<close>
  by (simp add: lex_eval parse_eval)

lemma trim_pop: "trim pop_text = pop_text"
  by (rule trim_id) (simp_all add: pop_text_def is_space_def)

lemma strip_pop: "strip_comma pop_text = pop_text"
  by (simp add: strip_comma_def pop_text_def)

lemma pop_not_bracket: "pop_text \<noteq> ''[''" "pop_text \<noteq> '']''"
  by (simp_all add: pop_text_def)

lemma parse_pop: "json_parse pop_text = Some pop_record"
  by (simp add: pop_text_def lex_eval parse_eval pop_record_def body_B_def)

lemma reassemble_pop: "reassemble js [] False [''['', pop_text, '']''] = [pop_record]"
  by (simp add: reassemble.simps trim_open trim_close trim_pop pop_not_bracket js_fields
      strip_pop parse_pop)

lemma rowOf_pop: "rowOf js pop_record = None"
  by (simp add: rowOf_def argsOf_def matchPredicate_def pop_record_def)

lemma trim_boxed: "trim boxed_text = boxed_text"
  by (rule trim_id) (simp_all add: boxed_text_def is_space_def)

lemma strip_boxed: "strip_comma boxed_text = boxed_text"
  by (simp add: strip_comma_def boxed_text_def)

lemma boxed_not_bracket: "boxed_text \<noteq> ''[''" "boxed_text \<noteq> '']''"
  by (simp_all add: boxed_text_def)

lemma parse_boxed: "json_parse boxed_text = Some boxed_record"
  by (simp add: boxed_text_def lex_eval parse_eval boxed_record_def body_B_def)

lemma reassemble_boxed: "reassemble js [] False [''['', boxed_text, '']''] = [boxed_record]"
  by (simp add: reassemble.simps trim_open trim_close trim_boxed boxed_not_bracket js_fields
      strip_boxed parse_boxed)

lemma match_boxed: "matchPredicate js boxed_record = Inr (Some body_B)"
  by (simp add: matchPredicate_def boxed_record_def scanBodies.simps qualifies_def body_B_def)

lemma boxed_props:
  "getProp (Some boxed_record) ''name'' = Inr (Some (JStr ''Sol''))"
  "getProp (Some boxed_record) ''coords''
     = Inr (Some (JObj [(''x'', JObj [(''ly'', JNum (Fin 0))]), (''y'', JNum (Fin 0)),
                        (''z'', JNum (Fin 0))]))"
  by (simp_all add: boxed_record_def)

lemma rowOf_boxed: "rowOf js boxed_record = None"
  by (simp add: rowOf_def argsOf_def match_boxed mkRow_def boxed_props sol_props
      insertStmt_run_def bindable_def)

lemma trim_named: "trim named_text = named_text"
  by (rule trim_id) (simp_all add: named_text_def is_space_def)

lemma strip_named: "strip_comma named_text = named_text"
  by (simp add: strip_comma_def named_text_def)

lemma named_not_bracket: "named_text \<noteq> ''[''" "named_text \<noteq> '']''"
  by (simp_all add: named_text_def)

lemma parse_named: "json_parse named_text = Some named_record"
  by (simp add: named_text_def lex_eval parse_eval named_record_def body_B_def)

lemma reassemble_named: "reassemble js [] False [''['', named_text, '']''] = [named_record]"
  by (simp add: reassemble.simps trim_open trim_close trim_named named_not_bracket js_fields
      strip_named parse_named)

lemma match_named: "matchPredicate js named_record = Inr (Some body_B)"
  by (simp add: matchPredicate_def named_record_def scanBodies.simps qualifies_def body_B_def)

lemma named_props:
  "getProp (Some named_record) ''name'' = Inr (Some (JObj [(''en'', JStr ''Sol'')]))"
  "getProp (Some named_record) ''coords''
     = Inr (Some (JObj [(''x'', JNum (Fin 0)), (''y'', JNum (Fin 0)), (''z'', JNum (Fin 0))]))"
  by (simp_all add: named_record_def)

lemma rowOf_named: "rowOf js named_record = Some null_row"
  by (simp add: rowOf_def argsOf_def match_named mkRow_def named_props sol_props
      insertStmt_run_def js_fields)

lemma trim_flat: "trim flat_text = flat_text"
  by (rule trim_id) (simp_all add: flat_text_def is_space_def)

lemma strip_flat: "strip_comma flat_text = flat_text"
  by (simp add: strip_comma_def flat_text_def)

lemma flat_not_bracket: "flat_text \<noteq> ''[''" "flat_text \<noteq> '']''"
  by (simp_all add: flat_text_def)

lemma parse_flat: "json_parse flat_text = Some flat_record"
  by (simp add: flat_text_def lex_eval parse_eval flat_record_def body_B_def)

lemma reassemble_flat: "reassemble js [] False [''['', flat_text, '']''] = [flat_record]"
  by (simp add: reassemble.simps trim_open trim_close trim_flat flat_not_bracket js_fields
      strip_flat parse_flat)

lemma match_flat: "matchPredicate js flat_record = Inr (Some body_B)"
  by (simp add: matchPredicate_def flat_record_def scanBodies.simps qualifies_def body_B_def)

lemma flat_props:
  "getProp (Some flat_record) ''name'' = Inr (Some (JStr ''Flat''))"
  "getProp (Some flat_record) ''coords'' = Inr (Some (JObj [(''x'', JNum (Fin 1))]))"
  by (simp_all add: flat_record_def)

lemma argsOf_flat:
  "argsOf js flat_record =
     Some \<lparr>system_name = Some (JStr ''Flat''), x_col = Some (JNum (Fin 1)), y_col = None,
           z_col = None, matched_body_name = Some (JStr ''B''),
           matched_body = Some (JStr body_B_text),
           system_data = Some (JStr (json_stringify flat_record))\<rparr>"
  by (simp add: argsOf_def match_flat mkRow_def js_fields flat_props sol_props stringify_body_B)

lemma rowOf_flat:
  "rowOf js flat_record =
     Some \<lparr>system_name = Some (JStr ''Flat''), x_col = Some (JNum (Fin 1)), y_col = None,
           z_col = None, matched_body_name = Some (JStr ''B''),
           matched_body = Some (JStr body_B_text),
           system_data = Some (JStr (json_stringify flat_record))\<rparr>"
  by (simp add: rowOf_def argsOf_flat insertStmt_run_def bindable_def)











section \<open>The claims of the specification\<close>

text \<open>
  C1, as the specification has it, fails on a matched record that hands the insert
  statement a value it cannot bind: the file of one record whose \<^verbatim>\<open>coords.x\<close> is an
  object is decoded to that record, the match predicate returns its body, and the run ends
  normally with no row, the exception of the statement being swallowed by the
  \<^verbatim>\<open>catch\<close> block of line 113.
\<close>

theorem C1_counterexample:
  "reassemble js [] False [''['', boxed_text, '']''] = [boxed_record]
   \<and> matchPredicate js boxed_record = Inr (Some body_B)
   \<and> insertStmt_run js
        \<lparr>system_name = Some (JStr ''Sol''), x_col = Some (JObj [(''ly'', JNum (Fin 0))]),
         y_col = Some (JNum (Fin 0)), z_col = Some (JNum (Fin 0)),
         matched_body_name = Some (JStr ''B''),
         matched_body = Some (JStr (json_stringify body_B)),
         system_data = Some (JStr (json_stringify boxed_record))\<rparr> = Inl TypeError
   \<and> (\<exists>st. processFile js [''['', boxed_text, '']''] = Inr st \<and> persisted (db st) = []
          \<and> processed st = 0 \<and> totalChecked st = 1)"
proof -
  note run = processFile_run [of js "[''['', boxed_text, '']'']", unfolded reassemble_boxed]
  let ?st = "finish (forLines js started [''['', boxed_text, '']''])"
  have "persisted (db ?st) = []" "processed ?st = 0" "totalChecked ?st = 1"
    using run(3,4,5) by (simp_all add: persisted_def all_rows_def finish_def
        List.map_filter_simps rowOf_boxed)
  with run(1) have "\<exists>st. processFile js [''['', boxed_text, '']''] = Inr st
      \<and> persisted (db st) = [] \<and> processed st = 0 \<and> totalChecked st = 1"
    by blast
  moreover have "insertStmt_run js
        \<lparr>system_name = Some (JStr ''Sol''), x_col = Some (JObj [(''ly'', JNum (Fin 0))]),
         y_col = Some (JNum (Fin 0)), z_col = Some (JNum (Fin 0)),
         matched_body_name = Some (JStr ''B''),
         matched_body = Some (JStr (json_stringify body_B)),
         system_data = Some (JStr (json_stringify boxed_record))\<rparr> = Inl TypeError"
    by (simp add: insertStmt_run_def bindable_def)
  ultimately show ?thesis
    using reassemble_boxed match_boxed by blast
qed

text \<open>
  C1, amended. Take an input in which every decoded record is storable: a matched record
  hands no array and no object to the insert statement, neither as its name, nor as the
  \<^verbatim>\<open>x\<close>, \<^verbatim>\<open>y\<close> or \<^verbatim>\<open>z\<close> of its \<^verbatim>\<open>coords\<close>, nor as the name of its matched body. Then
  the rows persisted by the run are, in order, one row for each decoded record on which the
  match predicate returns a body, and for no other record; so their number is the number of
  matched records. The row of a matched record holds the arguments of the insert, built from
  the body the predicate returned, and in a list of bodies that body is the first one that
  passes the body test: every body before it fails the test.
\<close>

theorem C1_one_row_per_storable_match:
  assumes "list_all (storable rt) (reassemble rt [] False lines)"
  shows "\<exists>st. processFile rt lines = Inr st
     \<and> persisted (db st) = List.map_filter (argsOf rt) (reassemble rt [] False lines)
     \<and> length (persisted (db st)) = length (filter (matches rt) (reassemble rt [] False lines))
     \<and> (\<forall>obj r. argsOf rt obj = Some r \<longrightarrow>
          (\<exists>body. matchPredicate rt obj = Inr (Some body) \<and> mkRow rt obj body = Inr r
             \<and> matched_body r = Some (JStr (stringify rt body))
             \<and> (\<forall>bs. getProp (Some obj) ''bodies'' = Inr (Some (JArr bs)) \<longrightarrow>
                  (\<exists>k<length bs. bs ! k = body \<and> qualifies rt (Some body) = Inr True
                     \<and> (\<forall>j<k. qualifies rt (Some (bs ! j)) = Inr False)))))"
proof -
  note run = processFile_run [of rt lines]
  let ?st = "finish (forLines rt started lines)"
  have rows: "persisted (db ?st) = List.map_filter (argsOf rt) (reassemble rt [] False lines)"
    using run(3) map_filter_rowOf_storable [OF assms]
    by (simp add: persisted_def all_rows_def finish_def)
  have first: "\<exists>body. matchPredicate rt obj = Inr (Some body) \<and> mkRow rt obj body = Inr r
             \<and> matched_body r = Some (JStr (stringify rt body))
             \<and> (\<forall>bs. getProp (Some obj) ''bodies'' = Inr (Some (JArr bs)) \<longrightarrow>
                  (\<exists>k<length bs. bs ! k = body \<and> qualifies rt (Some body) = Inr True
                     \<and> (\<forall>j<k. qualifies rt (Some (bs ! j)) = Inr False)))"
    if r: "argsOf rt obj = Some r" for obj r
  proof -
    from argsOf_texts [OF r] obtain body where m: "matchPredicate rt obj = Inr (Some body)"
      and mk: "mkRow rt obj body = Inr r"
      and sb: "matched_body r = Some (JStr (stringify rt body))"
      by blast
    have "\<exists>k<length bs. bs ! k = body \<and> qualifies rt (Some body) = Inr True
                     \<and> (\<forall>j<k. qualifies rt (Some (bs ! j)) = Inr False)"
      if bs: "getProp (Some obj) ''bodies'' = Inr (Some (JArr bs))" for bs
    proof -
      from m bs have "scanBodies rt (Some (JArr bs)) 0 = Inr (Some body)"
        by (auto simp: matchPredicate_def split: sum.splits if_splits)
      from scanBodies_array_first [OF this] show ?thesis by auto
    qed
    with m mk sb show ?thesis by blast
  qed
  show ?thesis
    apply (rule exI [of _ ?st])
    apply (intro conjI)
       apply (rule run(1))
      apply (rule rows)
     apply (simp only: rows length_map_filter_argsOf)
    using first apply blast
    done
qed

theorem C1_witness:
  "list_all (storable js) (reassemble js [] False [''['', sol_line, '']''])
   \<and> (\<exists>st. processFile js [''['', sol_line, '']''] = Inr st \<and> persisted (db st) = [sol_row]
     \<and> matched_body_name sol_row = Some (JStr ''B''))"
proof -
  have s: "list_all (storable js) (reassemble js [] False [''['', sol_line, '']''])"
    by (simp add: reassemble_sol storable_sol)
  have "\<exists>st. processFile js [''['', sol_line, '']''] = Inr st
      \<and> persisted (db st) = List.map_filter (argsOf js) [sol_record]"
    using C1_one_row_per_storable_match [OF s]
    unfolding reassemble_sol by blast
  then have "\<exists>st. processFile js [''['', sol_line, '']''] = Inr st \<and> persisted (db st) = [sol_row]
     \<and> matched_body_name sol_row = Some (JStr ''B'')"
    by (simp add: List.map_filter_simps argsOf_sol) (simp add: sol_row_def)
  with s show ?thesis by blast
qed

text \<open>
  C2, as the specification words it, fails on the code: a body whose atmosphere type is
  the empty text has a non-null atmosphere type, one ring and is landable, and the code
  does not match its record.
\<close>

theorem C2_counterexample:
  "is_system_record blank_atmosphere_record \<and> claimed_match blank_atmosphere_record
   \<and> matchPredicate js blank_atmosphere_record = Inr None"
  by (simp add: blank_atmosphere_record_def blank_atmosphere_body_def is_system_record_def
      is_body_record_def claimed_match_def first_level_def bodies_of_def get_member_def
      claimed_body_ok_def has_ring_def is_landable_def matchPredicate_def scanBodies.simps
      qualifies_def)

text \<open>
  C2, amended. On a System Record the predicate returns the first body of the list that has
  at least one ring, is landable and has a truthy atmosphere type, provided the record has
  a body list, a population that is exactly zero and coordinates; otherwise it returns no
  body. So the record is matched if and only if the three first-level checks pass and some
  body passes the body test. On any JSON object, a failed first-level check gives the
  answer whatever the body list holds, the lists on which a scan would throw included.
\<close>

theorem C2_match_predicate:
  "(is_system_record obj \<longrightarrow>
      matchPredicate rt obj = Inr (if first_level obj then find body_ok (bodies_of obj) else None)
      \<and> (matches rt obj \<longleftrightarrow> first_level obj \<and> list_ex body_ok (bodies_of obj)))
   \<and> (\<not> truthy (map_of ms ''bodies'') \<or> map_of ms ''population'' \<noteq> Some (JNum (Fin 0))
        \<or> \<not> truthy (map_of ms ''coords'')
      \<longrightarrow> matchPredicate rt (JObj ms) = Inr None)"
proof (intro conjI impI)
  assume rec: "is_system_record obj"
  then show m: "matchPredicate rt obj
      = Inr (if first_level obj then find body_ok (bodies_of obj) else None)"
    by (rule matchPredicate_system_record)
  have "find body_ok (bodies_of obj) \<noteq> None \<longleftrightarrow> list_ex body_ok (bodies_of obj)"
    by (auto simp: find_None_iff list_ex_iff)
  then show "matches rt obj \<longleftrightarrow> first_level obj \<and> list_ex body_ok (bodies_of obj)"
    by (auto simp: matches_def m split: option.splits)
next
  assume "\<not> truthy (map_of ms ''bodies'') \<or> map_of ms ''population'' \<noteq> Some (JNum (Fin 0))
        \<or> \<not> truthy (map_of ms ''coords'')"
  then show "matchPredicate rt (JObj ms) = Inr None"
    by (rule matchPredicate_first_level)
qed

theorem C2_witness:
  "is_system_record sol_record \<and> matchPredicate js sol_record = Inr (Some body_B)
   \<and> matches js sol_record
   \<and> matchPredicate js (JObj populated_record) = Inr None
   \<and> scanBodies js (Some (JArr [JNull])) 0 = Inl TypeError"
proof -
  have pop: "map_of populated_record ''population'' \<noteq> Some (JNum (Fin 0))"
    by (simp add: populated_record_def)
  have scan: "scanBodies js (Some (JArr [JNull])) 0 = Inl TypeError"
    by (simp add: scanBodies.simps qualifies_def)
  note c2 = C2_match_predicate [of sol_record js populated_record]
  from c2 sol_is_system_record sol_first_body
  have "matchPredicate js sol_record = Inr (Some body_B)" by simp
  moreover from this have "matches js sol_record" by (simp add: matches_def)
  moreover from c2 pop have "matchPredicate js (JObj populated_record) = Inr None" by blast
  ultimately show ?thesis
    using sol_is_system_record scan by blast
qed

text \<open>
  C3 on the code. The record on one line is decoded. Broken after a comma, its first line
  loses that comma to the separator stripping, the buffer becomes a text with two members
  and no comma between them, and no later line can complete it: nothing is decoded and no
  row is written, although the text with a space at the break parses to the same record.
  A closing bracket alone on a line inside a record ends the ingestion instead of closing
  the list it belongs to.
\<close>

theorem C3_split_record_is_lost:
  \<open>sol_head @ sol_tail = sol_line
   \<and> json_parse (sol_head @ '' '' @ strip_comma sol_tail) = Some sol_record
   \<and> reassemble js [] False [''['', sol_line, '']''] = [sol_record]
   \<and> reassemble js [] False [''['', sol_head, sol_tail, '']''] = []
   \<and> rows_of (processFile js [''['', sol_head, sol_tail, '']'']) = []
   \<and> json_parse ''{"name":"N","bodies":[ ] }'' = Some (JObj [(''name'', JStr ''N''), (''bodies'', JArr [])])
   \<and> reassemble js [] False [''['', ''{"name":"N","bodies":['', '']'', ''}'', '']''] = []\<close>
proof -
  have split: "reassemble js [] False [''['', sol_head, sol_tail, '']''] = []"
    by (simp add: reassemble.simps trim_open trim_close trim_sol_head trim_sol_tail
        sol_parts_not_bracket js_fields parse_head parse_glued)
  have t: \<open>trim ''{"name":"N","bodies":['' = ''{"name":"N","bodies":[''\<close>
    by (simp add: trim_def is_space_def)
  have s: \<open>strip_comma ''{"name":"N","bodies":['' = ''{"name":"N","bodies":[''\<close>
    by (simp add: strip_comma_def)
  have bracket: \<open>reassemble js [] False [''['', ''{"name":"N","bodies":['', '']'', ''}'', '']''] = []\<close>
    by (simp add: reassemble.simps trim_open trim_close t s js_fields parse_open_bodies)
  from split have "rows_of (processFile js [''['', sol_head, sol_tail, '']'']) = []"
    by (simp add: rows_of_processFile)
  with split bracket show ?thesis
    using sol_head_tail parse_spaced reassemble_sol parse_empty_bodies by blast
qed

text \<open>
  C4, as stated, fails on the code: the record above passes the coordinate-presence check,
  and its row has an x column and no y or z column.
\<close>

theorem C4_counterexample:
  "map (\<lambda>r. (sql_null (x_col r), sql_null (y_col r), sql_null (z_col r)))
     (rows_of (processFile js [''['', flat_text, '']''])) = [(False, True, True)]"
  by (simp add: rows_of_processFile reassemble_flat List.map_filter_simps rowOf_flat sql_null_def)

text \<open>
  C4, amended. Every persisted row comes from a decoded record that has a name, and when
  that name is no array and no object (one that is, the driver reads as the bindings of the
  statement, and the columns are what it makes of it), the \<^verbatim>\<open>coords\<close> value of the record
  is truthy and the x, y and z columns of the row hold the \<^verbatim>\<open>x\<close>, \<^verbatim>\<open>y\<close> and \<^verbatim>\<open>z\<close>
  members of that value: a column is NULL exactly when the member is absent or \<^verbatim>\<open>null\<close>.
  The columns are all non-null when the coordinates carry all three members; the presence
  check on \<^verbatim>\<open>coords\<close> alone does not exclude a row with some of them missing.
\<close>

theorem C4_coordinate_columns:
  "\<forall>r \<in> set (rows_of (processFile rt lines)).
     \<exists>obj \<in> set (reassemble rt [] False lines). \<exists>name.
        rowOf rt obj = Some r \<and> getProp (Some obj) ''name'' = Inr name
        \<and> (bindable name \<longrightarrow>
             (\<exists>coords. getProp (Some obj) ''coords'' = Inr coords \<and> truthy coords
                \<and> getProp coords ''x'' = Inr (x_col r) \<and> getProp coords ''y'' = Inr (y_col r)
                \<and> getProp coords ''z'' = Inr (z_col r)
                \<and> (sql_null (x_col r) \<longleftrightarrow> getProp coords ''x'' \<in> {Inr None, Inr (Some JNull)})
                \<and> (sql_null (y_col r) \<longleftrightarrow> getProp coords ''y'' \<in> {Inr None, Inr (Some JNull)})
                \<and> (sql_null (z_col r) \<longleftrightarrow> getProp coords ''z'' \<in> {Inr None, Inr (Some JNull)})))"
proof
  fix r assume "r \<in> set (rows_of (processFile rt lines))"
  then have "r \<in> set (List.map_filter (rowOf rt) (reassemble rt [] False lines))"
    by (simp add: rows_of_processFile)
  then obtain obj where obj: "obj \<in> set (reassemble rt [] False lines)" "rowOf rt obj = Some r"
    using in_map_filterD by fastforce
  from rowOf_name [OF obj(2)] obtain name where name: "getProp (Some obj) ''name'' = Inr name"
    by blast
  have "\<exists>coords. getProp (Some obj) ''coords'' = Inr coords \<and> truthy coords
                \<and> getProp coords ''x'' = Inr (x_col r) \<and> getProp coords ''y'' = Inr (y_col r)
                \<and> getProp coords ''z'' = Inr (z_col r)
                \<and> (sql_null (x_col r) \<longleftrightarrow> getProp coords ''x'' \<in> {Inr None, Inr (Some JNull)})
                \<and> (sql_null (y_col r) \<longleftrightarrow> getProp coords ''y'' \<in> {Inr None, Inr (Some JNull)})
                \<and> (sql_null (z_col r) \<longleftrightarrow> getProp coords ''z'' \<in> {Inr None, Inr (Some JNull)})"
    if "bindable name"
  proof -
    from rowOf_bindable_name [OF obj(2) name that] have "argsOf rt obj = Some r" .
    from argsOf_coords [OF this] obtain coords where
      c: "getProp (Some obj) ''coords'' = Inr coords" "truthy coords"
        "getProp coords ''x'' = Inr (x_col r)" "getProp coords ''y'' = Inr (y_col r)"
        "getProp coords ''z'' = Inr (z_col r)"
      by blast
    then have "(sql_null (x_col r) \<longleftrightarrow> getProp coords ''x'' \<in> {Inr None, Inr (Some JNull)})"
      "(sql_null (y_col r) \<longleftrightarrow> getProp coords ''y'' \<in> {Inr None, Inr (Some JNull)})"
      "(sql_null (z_col r) \<longleftrightarrow> getProp coords ''z'' \<in> {Inr None, Inr (Some JNull)})"
      by (simp_all add: sql_null_def)
    with c show ?thesis by blast
  qed
  with obj name show "\<exists>obj \<in> set (reassemble rt [] False lines). \<exists>name.
        rowOf rt obj = Some r \<and> getProp (Some obj) ''name'' = Inr name
        \<and> (bindable name \<longrightarrow>
             (\<exists>coords. getProp (Some obj) ''coords'' = Inr coords \<and> truthy coords
                \<and> getProp coords ''x'' = Inr (x_col r) \<and> getProp coords ''y'' = Inr (y_col r)
                \<and> getProp coords ''z'' = Inr (z_col r)
                \<and> (sql_null (x_col r) \<longleftrightarrow> getProp coords ''x'' \<in> {Inr None, Inr (Some JNull)})
                \<and> (sql_null (y_col r) \<longleftrightarrow> getProp coords ''y'' \<in> {Inr None, Inr (Some JNull)})
                \<and> (sql_null (z_col r) \<longleftrightarrow> getProp coords ''z'' \<in> {Inr None, Inr (Some JNull)})))"
    by blast
qed

theorem C4_witness:
  "rows_of (processFile js [''['', sol_line, '']'']) = [sol_row]
   \<and> bindable (Some (JStr ''Sol''))
   \<and> getProp (Some (JObj [(''x'', JNum (Fin 0)), (''y'', JNum (Fin 0)), (''z'', JNum (Fin 0))])) ''x''
       = Inr (x_col sol_row)
   \<and> \<not> sql_null (x_col sol_row) \<and> \<not> sql_null (y_col sol_row) \<and> \<not> sql_null (z_col sol_row)"
proof -
  have rows: "rows_of (processFile js [''['', sol_line, '']'']) = [sol_row]"
    by (simp add: rows_of_processFile reassemble_sol List.map_filter_simps rowOf_sol)
  have b: "bindable (Some (JStr ''Sol''))"
    by (simp add: bindable_def)
  from C4_coordinate_columns [of js "[''['', sol_line, '']'']"]
  have "\<exists>name. getProp (Some sol_record) ''name'' = Inr name
        \<and> (bindable name \<longrightarrow>
             (\<exists>coords. getProp (Some sol_record) ''coords'' = Inr coords
                \<and> getProp coords ''x'' = Inr (x_col sol_row)))"
    unfolding rows reassemble_sol by auto
  with b have "getProp (Some (JObj [(''x'', JNum (Fin 0)), (''y'', JNum (Fin 0)), (''z'', JNum (Fin 0))])) ''x''
       = Inr (x_col sol_row)"
    by (simp add: sol_props)
  with rows b show ?thesis
    by (simp add: sol_row_def sql_null_def)
qed

text \<open>
  C5, as stated, fails on the code: the array-close line ends the ingestion in the
  outside-array state as well, so a line seen outside the array has an effect, and the
  record that follows is not decoded.
\<close>

theorem C5_counterexample:
  "\<not> insideArray initial \<and> onLine js initial '']'' = Break initial
   \<and> reassemble js [] False ['']'', ''['', sol_line, '']''] = []
   \<and> reassemble js [] False [''['', sol_line, '']''] = [sol_record]"
  by (simp add: onLine_cases trim_close reassemble_sol)
     (simp add: initial_def reassemble.simps trim_close)

text \<open>
  C5, amended. The reassembler starts outside the array. A line whose trimmed content is
  the array-open token sets the inside-array flag and changes nothing else; the flag
  changes on no other line. The loop ends exactly on a line whose trimmed content is the
  array-close token, in either state, with the state unchanged, and the lines after it are
  ignored. Every other line seen outside the array leaves the state as it is.
\<close>

theorem C5_two_state_machine:
  "\<not> insideArray initial
   \<and> (trim line = ''['' \<longrightarrow> onLine rt st line = Continue (st\<lparr>insideArray := True\<rparr>))
   \<and> (\<forall>st'. onLine rt st line = Continue st' \<longrightarrow>
         (insideArray st' \<longleftrightarrow> insideArray st \<or> trim line = ''[''))
   \<and> ((\<exists>st'. onLine rt st line = Break st') \<longleftrightarrow> trim line = '']'')
   \<and> (trim line = '']'' \<longrightarrow> onLine rt st line = Break st
        \<and> forLines rt st (before @ line # rest) = forLines rt st (before @ [line]))
   \<and> (\<not> insideArray st \<and> trim line \<noteq> ''['' \<and> trim line \<noteq> '']'' \<longrightarrow> onLine rt st line = Continue st)"
proof (intro conjI impI allI)
  show "\<not> insideArray initial" by (simp add: initial_def)
  show "onLine rt st line = Continue (st\<lparr>insideArray := True\<rparr>)" if "trim line = ''[''"
    using that by (simp add: onLine_cases)
  show "insideArray st' \<longleftrightarrow> insideArray st \<or> trim line = ''[''"
    if "onLine rt st line = Continue st'" for st'
    using that by (auto simp: onLine_cases tryBlock_insideArray split: if_splits)
  show "(\<exists>st'. onLine rt st line = Break st') \<longleftrightarrow> trim line = '']''"
    by (auto simp: onLine_cases)
  show "onLine rt st line = Break st" if "trim line = '']''"
    using that by (simp add: onLine_cases)
  show "forLines rt st (before @ line # rest) = forLines rt st (before @ [line])"
    if "trim line = '']''"
    using that by (rule forLines_stops)
  show "onLine rt st line = Continue st"
    if "\<not> insideArray st \<and> trim line \<noteq> ''['' \<and> trim line \<noteq> '']''"
    using that by (simp add: onLine_cases)
qed

theorem C5_witness:
  "onLine js initial ''  [ '' = Continue (initial\<lparr>insideArray := True\<rparr>)
   \<and> onLine js (initial\<lparr>insideArray := True\<rparr>) '' ]'' = Break (initial\<lparr>insideArray := True\<rparr>)
   \<and> onLine js initial sol_line = Continue initial
   \<and> forLines js initial [''['', '']'', sol_line] = forLines js initial [''['', '']'']"
proof -
  have t: "trim ''  [ '' = ''[''" "trim '' ]'' = '']''"
    by (simp_all add: trim_def is_space_def)
  have o: "\<not> insideArray initial \<and> trim sol_line \<noteq> ''['' \<and> trim sol_line \<noteq> '']''"
    by (simp add: initial_def trim_sol_line sol_line_not_bracket)
  from C5_two_state_machine [of "''  [ ''" js initial "[]" "[]"] t(1)
  have 1: "onLine js initial ''  [ '' = Continue (initial\<lparr>insideArray := True\<rparr>)" by blast
  from C5_two_state_machine [of "'' ]''" js "initial\<lparr>insideArray := True\<rparr>" "[]" "[]"] t(2)
  have 2: "onLine js (initial\<lparr>insideArray := True\<rparr>) '' ]'' = Break (initial\<lparr>insideArray := True\<rparr>)"
    by blast
  from C5_two_state_machine [of sol_line js initial "[]" "[]"] o
  have 3: "onLine js initial sol_line = Continue initial" by blast
  from C5_two_state_machine [of "'']''" js initial "[''['']" "[sol_line]"] trim_close
  have 4: "forLines js initial [''['', '']'', sol_line] = forLines js initial [''['', '']'']"
    by simp
  from 1 2 3 4 show ?thesis by blast
qed

text \<open>
  C6. Every run ends normally. Whenever the count of rows in the open transaction reaches
  500 the writer commits and opens a new transaction at once; that is all it does then, and
  below 500 it does nothing. So at every turn of the loop a transaction is open, it holds
  fewer than 500 rows, and each batch committed so far holds exactly 500. The final commit
  closes the last transaction with the rows that are left: when the run has ended nothing
  is pending, and the committed batches, in order, are all the rows the run inserted.
\<close>

theorem C6_batched_commits:
  "(\<forall>s::state. inTxn (db s) \<and> batchCount s \<ge> 500 \<longrightarrow>
        commitBatch s = Inr (s\<lparr>db := (db s)\<lparr>committed := committed (db s) @ [pending (db s)],
                                            pending := [], inTxn := True\<rparr>,
                               batchCount := 0\<rparr>))
   \<and> (\<forall>s::state. batchCount s < 500 \<longrightarrow> commitBatch s = Inr s)
   \<and> (\<forall>n. batching (forLines rt started (take n lines)))
   \<and> (\<exists>st. processFile rt lines = Inr st
         \<and> pending (db st) = [] \<and> \<not> inTxn (db st)
         \<and> concat (committed (db st)) = all_rows (db (forLines rt started lines))
         \<and> committed (db st) \<noteq> []
         \<and> list_all (\<lambda>b. length b = 500) (butlast (committed (db st)))
         \<and> length (last (committed (db st))) < 500)"
proof (intro conjI allI impI)
  fix s :: state
  assume "inTxn (db s) \<and> batchCount s \<ge> 500"
  then show "commitBatch s = Inr (s\<lparr>db := (db s)\<lparr>committed := committed (db s) @ [pending (db s)],
                                            pending := [], inTxn := True\<rparr>,
                               batchCount := 0\<rparr>)"
    by (simp add: commitBatch_def db_commit_def db_begin_def)
next
  fix s :: state
  assume "batchCount s < 500"
  then show "commitBatch s = Inr s" by (simp add: commitBatch_def)
next
  fix n
  from forLines_reassemble [OF batching_start] show "batching (forLines rt started (take n lines))"
    by blast
next
  note run = processFile_run [of rt lines]
  let ?loop = "forLines rt started lines"
  let ?st = "finish ?loop"
  from run(2) have b: "list_all (\<lambda>b. length b = 500) (committed (db ?loop))"
    "length (pending (db ?loop)) < 500"
    by (simp_all add: batching_def)
  have "pending (db ?st) = []" "\<not> inTxn (db ?st)"
    "concat (committed (db ?st)) = all_rows (db (forLines rt started lines))"
    "committed (db ?st) \<noteq> []"
    "list_all (\<lambda>b. length b = 500) (butlast (committed (db ?st)))"
    "length (last (committed (db ?st))) < 500"
    using b by (simp_all add: all_rows_def finish_def)
  with run(1) show "\<exists>st. processFile rt lines = Inr st
         \<and> pending (db st) = [] \<and> \<not> inTxn (db st)
         \<and> concat (committed (db st)) = all_rows (db (forLines rt started lines))
         \<and> committed (db st) \<noteq> []
         \<and> list_all (\<lambda>b. length b = 500) (butlast (committed (db st)))
         \<and> length (last (committed (db st))) < 500"
    by (intro exI [of _ ?st] conjI)
qed

theorem C6_witness:
  "\<exists>st. processFile js (''['' # replicate 501 sol_line @ ['']'']) = Inr st
     \<and> committed (db st) = [replicate 500 sol_row, [sol_row]] \<and> pending (db st) = []"
proof -
  have r: "reassemble js [] False (''['' # replicate 501 sol_line @ ['']''])
      = replicate 501 sol_record"
    by (subst reassemble.simps) (simp add: trim_open reassemble_sol_lines)
  from C6_batched_commits [of js "''['' # replicate 501 sol_line @ ['']'']"]
  obtain st where st: "processFile js (''['' # replicate 501 sol_line @ ['']'']) = Inr st"
    "pending (db st) = []"
    "concat (committed (db st))
       = all_rows (db (forLines js started (''['' # replicate 501 sol_line @ ['']''])))"
    "committed (db st) \<noteq> []"
    "list_all (\<lambda>b. length b = 500) (butlast (committed (db st)))"
    "length (last (committed (db st))) < 500"
    by blast
  from st(3) have "concat (committed (db st)) = replicate 501 sol_row"
    by (simp only: processFile_run(3) r rows_sol_records)
  from two_batches [OF this st(4,5,6)] st(1,2) show ?thesis by blast
qed

text \<open>
  C7. A line met inside the array on which the buffer does not parse leaves every part of
  the state as it was except the buffer, which keeps all it held, the line appended, and a
  single space after it when it is not empty; the loop goes on. Nothing distinguishes a
  text that is incomplete from one that is malformed: the step depends on the failure of
  the parse only. No run ends with an exception.
\<close>

theorem C7_failed_parse_keeps_fragment:
  "(insideArray st \<and> trim line \<noteq> ''['' \<and> trim line \<noteq> '']''
      \<and> parse rt (buffer st @ strip_comma (trim line)) = None
     \<longrightarrow> onLine rt st line =
          Continue (st\<lparr>buffer := (if buffer st @ strip_comma (trim line) \<noteq> []
                                   then buffer st @ strip_comma (trim line) @ '' ''
                                   else [])\<rparr>))
   \<and> (\<exists>st'. processFile rt lines = Inr st')"
proof (intro conjI impI)
  assume a: "insideArray st \<and> trim line \<noteq> ''['' \<and> trim line \<noteq> '']''
      \<and> parse rt (buffer st @ strip_comma (trim line)) = None"
  then have "after_try (tryBlock rt (st\<lparr>buffer := buffer st @ strip_comma (trim line)\<rparr>))
      = st\<lparr>buffer := keep_fragment (buffer st @ strip_comma (trim line))\<rparr>"
    using tryBlock_unparsed [of rt "st\<lparr>buffer := buffer st @ strip_comma (trim line)\<rparr>"] by simp
  with a show "onLine rt st line =
          Continue (st\<lparr>buffer := (if buffer st @ strip_comma (trim line) \<noteq> []
                                   then buffer st @ strip_comma (trim line) @ '' ''
                                   else [])\<rparr>)"
    by (simp add: onLine_cases keep_fragment_def)
next
  show "\<exists>st'. processFile rt lines = Inr st'"
    using processFile_run(1) [of rt lines] by blast
qed

theorem C7_witness:
  \<open>onLine js (initial\<lparr>insideArray := True\<rparr>) '' }{ '' = Continue (initial\<lparr>insideArray := True, buffer := ''}{ ''\<rparr>)
   \<and> onLine js (initial\<lparr>insideArray := True\<rparr>) ''{"a":'' = Continue (initial\<lparr>insideArray := True, buffer := ''{"a": ''\<rparr>)\<close>
proof -
  have t: \<open>trim '' }{ '' = ''}{''\<close> \<open>trim ''{"a":'' = ''{"a":''\<close>
    by (simp_all add: trim_def is_space_def)
  have s: \<open>strip_comma ''}{'' = ''}{''\<close> \<open>strip_comma ''{"a":'' = ''{"a":''\<close>
    by (simp_all add: strip_comma_def)
  have b: "buffer (initial\<lparr>insideArray := True\<rparr>) = []"
    by (simp add: initial_def)
  from C7_failed_parse_keeps_fragment [of "initial\<lparr>insideArray := True\<rparr>" "'' }{ ''" js "[]"]
  have 1: \<open>onLine js (initial\<lparr>insideArray := True\<rparr>) '' }{ ''
      = Continue (initial\<lparr>insideArray := True, buffer := ''}{ ''\<rparr>)\<close>
    by (simp add: t s b js_fields parse_malformed)
  from C7_failed_parse_keeps_fragment [of "initial\<lparr>insideArray := True\<rparr>" \<open>''{"a":''\<close> js "[]"]
  have 2: \<open>onLine js (initial\<lparr>insideArray := True\<rparr>) ''{"a":''
      = Continue (initial\<lparr>insideArray := True, buffer := ''{"a": ''\<rparr>)\<close>
    by (simp add: t s b js_fields parse_incomplete)
  from 1 2 show ?thesis by blast
qed




text \<open>
  C10. When a run has decoded no record, the final report divides zero by zero: its match
  rate is NaN (which \<^verbatim>\<open>toFixed\<close> prints as \<^verbatim>\<open>NaN\<close>). The run still ends normally, and its
  last statement on the store is the final commit, of an empty batch.
\<close>

theorem C10_zero_records_reports_NaN:
  "\<exists>st. processFile rt lines = Inr st
     \<and> (totalChecked st = 0 \<longrightarrow>
          last (console st) = \<lparr>final = True, rep_processed = 0, rep_checked = 0, match_rate = NaN\<rparr>
          \<and> committed (db st) = [[]] \<and> pending (db st) = [] \<and> \<not> inTxn (db st))"
proof -
  note run = processFile_run [of rt lines]
  let ?loop = "forLines rt started lines"
  have "totalChecked (finish ?loop) = 0 \<longrightarrow>
          last (console (finish ?loop))
            = \<lparr>final = True, rep_processed = 0, rep_checked = 0, match_rate = NaN\<rparr>
          \<and> committed (db (finish ?loop)) = [[]] \<and> pending (db (finish ?loop)) = []
          \<and> \<not> inTxn (db (finish ?loop))"
  proof
    assume z: "totalChecked (finish ?loop) = 0"
    then have z': "totalChecked ?loop = 0" by (simp add: finish_def)
    with run(5) have none: "reassemble rt [] False lines = []" by simp
    with run(3,4) have rows: "all_rows (db ?loop) = []" and p: "processed ?loop = 0"
      by simp_all
    from rows have pend: "pending (db ?loop) = []" and cc: "concat (committed (db ?loop)) = []"
      by (simp_all add: all_rows_def)
    from run(2) have "\<forall>b\<in>set (committed (db ?loop)). length b = 500"
      by (simp add: batching_def list_all_iff)
    with cc have "committed (db ?loop) = []"
      by (cases "committed (db ?loop)") auto
    with pend p z'
    show "last (console (finish ?loop))
            = \<lparr>final = True, rep_processed = 0, rep_checked = 0, match_rate = NaN\<rparr>
          \<and> committed (db (finish ?loop)) = [[]] \<and> pending (db (finish ?loop)) = []
          \<and> \<not> inTxn (db (finish ?loop))"
      by (simp add: finish_def mk_report_def js_div_def)
  qed
  with run(1) show ?thesis
    by (intro exI [of _ "finish ?loop"] conjI)
qed

theorem C10_witness:
  "\<exists>st. processFile js [''['', '']''] = Inr st \<and> totalChecked st = 0
     \<and> console st = [\<lparr>final = True, rep_processed = 0, rep_checked = 0, match_rate = NaN\<rparr>]
     \<and> committed (db st) = [[]]"
proof -
  have run: "processFile js [''['', '']'']
      = Inr (initial\<lparr>insideArray := True,
               db := \<lparr>committed = [[]], pending = [], inTxn = False\<rparr>,
               console := [mk_report True 0 0]\<rparr>)"
    by (simp add: processFile_def db_begin_def db_commit_def onLine_cases trim_open trim_close
        initial_def)
  with C10_zero_records_reports_NaN [of js "[''['', '']'']"] show ?thesis
    by (simp add: initial_def mk_report_def js_div_def)
qed

section \<open>Further properties of a run\<close>

text \<open>
  The first end-to-end scenario of the specification: the file of the three lines
  \<^verbatim>\<open>[\<close>, the record of Sol and \<^verbatim>\<open>]\<close> gives exactly one row, with body B as the matched
  body (body A has no ring).
\<close>

theorem scenario_sol_one_row:
  "rows_of (processFile js [''['', sol_line, '']'']) = [sol_row]
   \<and> matched_body_name sol_row = Some (JStr ''B'')"
  by (simp add: rows_of_processFile reassemble_sol rowOf_sol List.map_filter_simps)
     (simp add: sol_row_def)

text \<open>
  The second scenario: a record with a population of one and a body that passes the body
  test gives no row.
\<close>

theorem scenario_populated_no_row:
  "rows_of (processFile js [''['', pop_text, '']'']) = []"
  by (simp add: rows_of_processFile reassemble_pop rowOf_pop List.map_filter_simps)

theorem scenario_object_name_null_row:
  "matchPredicate js named_record = Inr (Some body_B)
   \<and> rows_of (processFile js [''['', named_text, '']'']) = [null_row]
   \<and> sql_null (x_col null_row) \<and> sql_null (matched_body null_row)
   \<and> sql_null (system_data null_row)"
  by (simp add: match_named rows_of_processFile reassemble_named rowOf_named
      List.map_filter_simps)
     (simp add: null_row_def sql_null_def)

text \<open>
  The counters of a run: every run ends normally, \<open>totalChecked\<close> is the number of values
  decoded, \<open>processed\<close> the number of rows stored, which is the number of matched records
  when all of them are storable, and the last line of the report is the final one, with
  the rate \<^verbatim>\<open>processed/totalChecked*100\<close> of these two counters.
\<close>

theorem run_counters:
  "\<exists>st. processFile rt lines = Inr st
     \<and> totalChecked st = length (reassemble rt [] False lines)
     \<and> processed st = length (persisted (db st))
     \<and> (list_all (storable rt) (reassemble rt [] False lines) \<longrightarrow>
          processed st = length (filter (matches rt) (reassemble rt [] False lines)))
     \<and> last (console st) = mk_report True (processed st) (totalChecked st)"
proof -
  note run = processFile_run [of rt lines]
  let ?st = "finish (forLines rt started lines)"
  have "totalChecked ?st = length (reassemble rt [] False lines)"
    "processed ?st = length (persisted (db ?st))"
    "list_all (storable rt) (reassemble rt [] False lines) \<longrightarrow>
          processed ?st = length (filter (matches rt) (reassemble rt [] False lines))"
    "last (console ?st) = mk_report True (processed ?st) (totalChecked ?st)"
    using run(3,4,5)
    by (simp_all add: map_filter_rowOf_storable length_map_filter_argsOf finish_def
        persisted_def all_rows_def)
  with run(1) show ?thesis
    by (intro exI [of _ ?st] conjI)
qed

end
